theory Spec2Isabelle
  imports Main
begin

section \<open>JavaScript values\<close>

text \<open>
  The tool executors of \<^verbatim>\<open>tools.ts\<close> return plain object literals, and the IPC
  handlers exchange plain objects with them. They are modelled by a small datatype of
  JavaScript values; an object is the list of its properties in the order the literal
  writes them. Strings are lists of code units below 256. Numbers are the integers, which
  covers the exit codes, counts, line numbers and timeouts that pass through the tools; they
  are rendered in decimal, as the language renders an integer below \<open>10\<^sup>2\<^sup>1\<close>.
\<close>

datatype jsval =
    JUndefined
  | JNull
  | JBool bool
  | JNum int
  | JStr string
  | JArr "jsval list"
  | JObj "(string \<times> jsval) list"

text \<open>Truthiness, as \<^verbatim>\<open>!x\<close>, \<^verbatim>\<open>x || y\<close> and \<^verbatim>\<open>x ? a : b\<close> read it.\<close>

fun truthy :: "jsval \<Rightarrow> bool" where
  "truthy JUndefined = False"
| "truthy JNull = False"
| "truthy (JBool b) = b"
| "truthy (JNum n) = (n \<noteq> 0)"
| "truthy (JStr s) = (s \<noteq> [])"
| "truthy (JArr xs) = True"
| "truthy (JObj ps) = True"

definition js_or :: "jsval \<Rightarrow> jsval \<Rightarrow> jsval" where
  "js_or a b = (if truthy a then a else b)"

text \<open>Property read \<^verbatim>\<open>x?.name\<close>: undefined on anything that has no such property.\<close>

fun js_get :: "jsval \<Rightarrow> string \<Rightarrow> jsval" where
  "js_get (JObj ps) k = (case map_of ps k of Some v \<Rightarrow> v | None \<Rightarrow> JUndefined)"
| "js_get v k = JUndefined"

text \<open>Decimal rendering of a number inside a template string.\<close>

definition digit_char :: "nat \<Rightarrow> char" where
  "digit_char d = ''0123456789'' ! d"

fun show_nat :: "nat \<Rightarrow> string" where
  "show_nat n =
     (if n < 10 then [digit_char n]
      else show_nat (n div 10) @ [digit_char (n mod 10)])"

declare show_nat.simps [simp del]

definition show_int :: "int \<Rightarrow> string" where
  "show_int i = (if i < 0 then ''-'' @ show_nat (nat (- i)) else show_nat (nat i))"

text \<open>A string option read as a possibly undefined string.\<close>

definition str_truthy :: "string option \<Rightarrow> bool" where
  "str_truthy s = (case s of None \<Rightarrow> False | Some x \<Rightarrow> x \<noteq> [])"

fun enumerate_from :: "nat \<Rightarrow> 'a list \<Rightarrow> (nat \<times> 'a) list" where
  "enumerate_from i [] = []"
| "enumerate_from i (x # xs) = (i, x) # enumerate_from (Suc i) xs"

section \<open>Todo store (\<^verbatim>\<open>todoStore.ts\<close>)\<close>

datatype TodoStatus = pending | in_progress | completed

record Todo =
  todo_id :: string
  todo_content :: string
  todo_status :: TodoStatus

record TodoState =
  todos :: "Todo list"

definition todo_store_init :: TodoState where
  "todo_store_init = \<lparr>todos = []\<rparr>"

definition setTodos :: "Todo list \<Rightarrow> TodoState \<Rightarrow> TodoState" where
  "setTodos ts st = st\<lparr>todos := ts\<rparr>"

text \<open>
  \<^verbatim>\<open>addTodo\<close> builds its id from the clock and a random suffix; both are supplied by
  the caller of the model as the finished id.
\<close>

definition addTodo :: "string \<Rightarrow> string \<Rightarrow> TodoState \<Rightarrow> TodoState" where
  "addTodo fresh_id c st =
     st\<lparr>todos := todos st @ [\<lparr>todo_id = fresh_id, todo_content = c, todo_status = pending\<rparr>]\<rparr>"

definition updateTodo ::
  "string \<Rightarrow> string option \<Rightarrow> TodoStatus option \<Rightarrow> TodoState \<Rightarrow> TodoState" where
  "updateTodo i new_content new_status st =
     st\<lparr>todos := map (\<lambda>t. if todo_id t = i
                            then t\<lparr>todo_content := (case new_content of None \<Rightarrow> todo_content t | Some c \<Rightarrow> c),
                                   todo_status := (case new_status of None \<Rightarrow> todo_status t | Some s \<Rightarrow> s)\<rparr>
                            else t) (todos st)\<rparr>"

definition removeTodo :: "string \<Rightarrow> TodoState \<Rightarrow> TodoState" where
  "removeTodo i st = st\<lparr>todos := filter (\<lambda>t. todo_id t \<noteq> i) (todos st)\<rparr>"

definition clearTodos :: "TodoState \<Rightarrow> TodoState" where
  "clearTodos st = st\<lparr>todos := []\<rparr>"

section \<open>The \<^verbatim>\<open>todoWrite\<close> tool (\<^verbatim>\<open>tools.ts\<close>)\<close>

text \<open>One element of the \<^verbatim>\<open>todos\<close> parameter: the id is optional in the schema.\<close>

record TodoInput =
  in_id :: "string option"
  in_content :: string
  in_status :: TodoStatus

fun status_str :: "TodoStatus \<Rightarrow> string" where
  "status_str pending = ''pending''"
| "status_str in_progress = ''in_progress''"
| "status_str completed = ''completed''"

text \<open>
  \<^verbatim>\<open>t.id || `todo-${Date.now()}-${i}`\<close>. The clock is read once per element, so the
  model takes the reading made at element \<open>i\<close> as \<open>now i\<close>.
\<close>

definition mapTodo :: "(nat \<Rightarrow> nat) \<Rightarrow> nat \<times> TodoInput \<Rightarrow> Todo" where
  "mapTodo now it =
     (case it of (i, t) \<Rightarrow>
        \<lparr>todo_id = (if str_truthy (in_id t) then the (in_id t)
                    else ''todo-'' @ show_nat (now i) @ ''-'' @ show_nat i),
         todo_content = in_content t,
         todo_status = in_status t\<rparr>)"

definition mappedTodos :: "(nat \<Rightarrow> nat) \<Rightarrow> TodoInput list \<Rightarrow> Todo list" where
  "mappedTodos now ts = map (mapTodo now) (enumerate_from 0 ts)"

definition todo_json :: "Todo \<Rightarrow> jsval" where
  "todo_json t =
     JObj [(''id'', JStr (todo_id t)),
           (''content'', JStr (todo_content t)),
           (''status'', JStr (status_str (todo_status t)))]"

definition todoWrite ::
  "(nat \<Rightarrow> nat) \<Rightarrow> TodoInput list \<Rightarrow> TodoState \<Rightarrow> jsval \<times> TodoState" where
  "todoWrite now ts st =
     (let mapped = mappedTodos now ts
      in (JObj [(''success'', JBool True),
                (''message'', JStr (''Updated '' @ show_nat (length ts) @ '' todo(s)'')),
                (''todos'', JArr (map todo_json mapped))],
          setTodos mapped st))"

text \<open>The id a caller reads back from element \<open>k\<close> of the result's \<^verbatim>\<open>todos\<close> array.\<close>

definition echoed_id :: "jsval \<Rightarrow> nat \<Rightarrow> string option" where
  "echoed_id res k =
     (case js_get res ''todos'' of
        JArr xs \<Rightarrow> (if k < length xs
                    then (case js_get (xs ! k) ''id'' of JStr s \<Rightarrow> Some s | _ \<Rightarrow> None)
                    else None)
      | _ \<Rightarrow> None)"

section \<open>Question store (\<^verbatim>\<open>questionStore.ts\<close>)\<close>

record QuestionOption =
  opt_id :: string
  opt_label :: string

record Question =
  q_id :: string
  q_question :: string
  q_options :: "QuestionOption list"
  q_allowCustom :: bool
  q_selectedOptionId :: "string option"
  q_customAnswer :: "string option"

record QuestionSet =
  qs_id :: string
  qs_questions :: "Question list"
  qs_currentIndex :: int
  qs_submitted :: bool

record QuestionStore =
  activeQuestionSet :: "QuestionSet option"

definition question_store_init :: QuestionStore where
  "question_store_init = \<lparr>activeQuestionSet = None\<rparr>"

text \<open>
  The argument of \<^verbatim>\<open>setQuestions\<close>: a question without its two answer fields. The id
  is read with \<^verbatim>\<open>q.id || `q-${i}`\<close>, so a missing id (\<open>None\<close>) and an empty one both
  take the fallback.
\<close>

record QuestionInput =
  qi_id :: "string option"
  qi_question :: string
  qi_options :: "QuestionOption list"
  qi_allowCustom :: bool

definition assigned_id :: "nat \<times> QuestionInput \<Rightarrow> string" where
  "assigned_id it =
     (case it of (i, q) \<Rightarrow>
        if str_truthy (qi_id q) then the (qi_id q) else ''q-'' @ show_nat i)"

definition new_question :: "nat \<times> QuestionInput \<Rightarrow> Question" where
  "new_question it =
     \<lparr>q_id = assigned_id it,
      q_question = qi_question (snd it),
      q_options = qi_options (snd it),
      q_allowCustom = qi_allowCustom (snd it),
      q_selectedOptionId = None,
      q_customAnswer = None\<rparr>"

text \<open>\<^verbatim>\<open>setQuestions\<close> returns the set id \<^verbatim>\<open>`qs-${Date.now()}`\<close> and the new store.\<close>

definition setQuestions ::
  "nat \<Rightarrow> QuestionInput list \<Rightarrow> QuestionStore \<Rightarrow> string \<times> QuestionStore" where
  "setQuestions now qs st =
     (let i = ''qs-'' @ show_nat now
      in (i, st\<lparr>activeQuestionSet :=
                  Some \<lparr>qs_id = i,
                        qs_questions = map new_question (enumerate_from 0 qs),
                        qs_currentIndex = 0,
                        qs_submitted = False\<rparr>\<rparr>))"

definition selectOption :: "string \<Rightarrow> string \<Rightarrow> QuestionStore \<Rightarrow> QuestionStore" where
  "selectOption questionId optionId st =
     (case activeQuestionSet st of
        None \<Rightarrow> st
      | Some a \<Rightarrow>
          st\<lparr>activeQuestionSet :=
               Some (a\<lparr>qs_questions :=
                        map (\<lambda>q. if q_id q = questionId
                                  then q\<lparr>q_selectedOptionId := Some optionId, q_customAnswer := None\<rparr>
                                  else q) (qs_questions a)\<rparr>)\<rparr>)"

definition setCustomAnswer :: "string \<Rightarrow> string \<Rightarrow> QuestionStore \<Rightarrow> QuestionStore" where
  "setCustomAnswer questionId answer st =
     (case activeQuestionSet st of
        None \<Rightarrow> st
      | Some a \<Rightarrow>
          st\<lparr>activeQuestionSet :=
               Some (a\<lparr>qs_questions :=
                        map (\<lambda>q. if q_id q = questionId
                                  then q\<lparr>q_selectedOptionId := None, q_customAnswer := Some answer\<rparr>
                                  else q) (qs_questions a)\<rparr>)\<rparr>)"

definition nextQuestion :: "QuestionStore \<Rightarrow> QuestionStore" where
  "nextQuestion st =
     (case activeQuestionSet st of
        None \<Rightarrow> st
      | Some a \<Rightarrow>
          st\<lparr>activeQuestionSet :=
               Some (a\<lparr>qs_currentIndex :=
                        min (qs_currentIndex a + 1) (int (length (qs_questions a)) - 1)\<rparr>)\<rparr>)"

definition prevQuestion :: "QuestionStore \<Rightarrow> QuestionStore" where
  "prevQuestion st =
     (case activeQuestionSet st of
        None \<Rightarrow> st
      | Some a \<Rightarrow>
          st\<lparr>activeQuestionSet := Some (a\<lparr>qs_currentIndex := max (qs_currentIndex a - 1) 0\<rparr>)\<rparr>)"

text \<open>One entry of the answers record that \<^verbatim>\<open>submitAnswers\<close> returns.\<close>

record Answer =
  selectedOption :: "string option"
  customAnswer :: "string option"

definition answer_of :: "Question \<Rightarrow> Answer" where
  "answer_of q =
     \<lparr>selectedOption =
        (if str_truthy (q_selectedOptionId q)
         then map_option opt_label
                (find (\<lambda>opt. Some (opt_id opt) = q_selectedOptionId q) (q_options q))
         else None),
      customAnswer = q_customAnswer q\<rparr>"

text \<open>
  The object that \<^verbatim>\<open>submitAnswers\<close> returns. It starts as the empty object literal, and the
  \<^verbatim>\<open>for\<close> loop fills it by assignments \<^verbatim>\<open>answers[q.id] = entry\<close>. Such an assignment
  creates the own property \<^verbatim>\<open>q.id\<close>, or overwrites it, for every key but one: for the key
  \<^verbatim>\<open>__proto__\<close> it runs the setter that every object inherits, which makes the entry the
  prototype of the object and creates no own property. The model keeps the own properties,
  which are the keys of the object, apart from the prototype (\<open>None\<close> while it is the
  initial one).
\<close>

record AnswersObject =
  own_entries :: "string \<rightharpoonup> Answer"
  proto_entry :: "Answer option"

definition empty_answers :: AnswersObject where
  "empty_answers = \<lparr>own_entries = Map.empty, proto_entry = None\<rparr>"

definition assign_answer :: "string \<Rightarrow> Answer \<Rightarrow> AnswersObject \<Rightarrow> AnswersObject" where
  "assign_answer k entry answers =
     (if k = ''__proto__'' then answers\<lparr>proto_entry := Some entry\<rparr>
      else answers\<lparr>own_entries := (own_entries answers)(k \<mapsto> entry)\<rparr>)"

fun collect_answers :: "Question list \<Rightarrow> AnswersObject \<Rightarrow> AnswersObject" where
  "collect_answers [] answers = answers"
| "collect_answers (q # qs) answers =
     collect_answers qs (assign_answer (q_id q) (answer_of q) answers)"

definition submitAnswers :: "QuestionStore \<Rightarrow> AnswersObject \<times> QuestionStore" where
  "submitAnswers st =
     (case activeQuestionSet st of
        None \<Rightarrow> (empty_answers, st)
      | Some a \<Rightarrow>
          (collect_answers (qs_questions a) empty_answers,
           st\<lparr>activeQuestionSet := Some (a\<lparr>qs_submitted := True\<rparr>)\<rparr>))"

definition clearQuestions :: "QuestionStore \<Rightarrow> QuestionStore" where
  "clearQuestions st = st\<lparr>activeQuestionSet := None\<rparr>"

definition hasUnansweredQuestions :: "QuestionStore \<Rightarrow> bool" where
  "hasUnansweredQuestions st =
     (case activeQuestionSet st of
        None \<Rightarrow> False
      | Some a \<Rightarrow>
          if qs_submitted a then False
          else list_ex (\<lambda>q. \<not> str_truthy (q_selectedOptionId q) \<and> \<not> str_truthy (q_customAnswer q))
                 (qs_questions a))"

text \<open>The actions of the store as data, and a run of a sequence of them.\<close>

datatype QuestionAction =
    SetQuestions nat "QuestionInput list"
  | SelectOption string string
  | SetCustomAnswer string string
  | NextQuestion
  | PrevQuestion
  | SubmitAnswers
  | ClearQuestions

fun question_step :: "QuestionAction \<Rightarrow> QuestionStore \<Rightarrow> QuestionStore" where
  "question_step (SetQuestions now qs) st = snd (setQuestions now qs st)"
| "question_step (SelectOption qid oid) st = selectOption qid oid st"
| "question_step (SetCustomAnswer qid a) st = setCustomAnswer qid a st"
| "question_step NextQuestion st = nextQuestion st"
| "question_step PrevQuestion st = prevQuestion st"
| "question_step SubmitAnswers st = snd (submitAnswers st)"
| "question_step ClearQuestions st = clearQuestions st"

fun question_run :: "QuestionAction list \<Rightarrow> QuestionStore \<Rightarrow> QuestionStore" where
  "question_run [] st = st"
| "question_run (a # as) st = question_run as (question_step a st)"

text \<open>The questions currently held by the store (none when no set is active).\<close>

definition active_questions :: "QuestionStore \<Rightarrow> Question list" where
  "active_questions st =
     (case activeQuestionSet st of None \<Rightarrow> [] | Some a \<Rightarrow> qs_questions a)"

text \<open>No question holds both a selected option id and a custom answer.\<close>

definition mutually_exclusive :: "QuestionStore \<Rightarrow> bool" where
  "mutually_exclusive st =
     list_all (\<lambda>q. q_selectedOptionId q = None \<or> q_customAnswer q = None) (active_questions st)"

section \<open>Regular expressions\<close>

text \<open>
  The blocked patterns of \<^verbatim>\<open>index.ts\<close> are regular-expression literals with the flag
  \<^verbatim>\<open>i\<close>. Their meaning is given by a matcher that follows the backtracking semantics of
  the language: from a position in the input it lists, in the order the engine tries them,
  the positions at which a match of the expression can end. All matching is
  case-insensitive: two code units agree when \<open>canonicalize\<close> maps them to the same one.
\<close>

definition ascii_lower :: string where
  "ascii_lower = ''abcdefghijklmnopqrstuvwxyz''"

definition ascii_upper :: string where
  "ascii_upper = ''ABCDEFGHIJKLMNOPQRSTUVWXYZ''"

definition latin1_lower :: string where
  "latin1_lower =
      [CHR 0xE0, CHR 0xE1, CHR 0xE2, CHR 0xE3, CHR 0xE4, CHR 0xE5, CHR 0xE6, CHR 0xE7,
       CHR 0xE8, CHR 0xE9, CHR 0xEA, CHR 0xEB, CHR 0xEC, CHR 0xED, CHR 0xEE, CHR 0xEF,
       CHR 0xF0, CHR 0xF1, CHR 0xF2, CHR 0xF3, CHR 0xF4, CHR 0xF5, CHR 0xF6, CHR 0xF8,
       CHR 0xF9, CHR 0xFA, CHR 0xFB, CHR 0xFC, CHR 0xFD, CHR 0xFE]"

definition latin1_upper :: string where
  "latin1_upper =
      [CHR 0xC0, CHR 0xC1, CHR 0xC2, CHR 0xC3, CHR 0xC4, CHR 0xC5, CHR 0xC6, CHR 0xC7,
       CHR 0xC8, CHR 0xC9, CHR 0xCA, CHR 0xCB, CHR 0xCC, CHR 0xCD, CHR 0xCE, CHR 0xCF,
       CHR 0xD0, CHR 0xD1, CHR 0xD2, CHR 0xD3, CHR 0xD4, CHR 0xD5, CHR 0xD6, CHR 0xD8,
       CHR 0xD9, CHR 0xDA, CHR 0xDB, CHR 0xDC, CHR 0xDD, CHR 0xDE]"

text \<open>
  \<open>Canonicalize\<close> of the language standard, for a pattern without the flag \<^verbatim>\<open>u\<close>:
  the upper-case form of a code unit when that is a single code unit and does not turn a
  non-ASCII code unit into an ASCII one. Below 256 this is the table of the lower-case
  letters that have an upper-case partner below 256.
\<close>

definition upper_of :: "(char \<times> char) list" where
  "upper_of = zip (ascii_lower @ latin1_lower) (ascii_upper @ latin1_upper)"

definition canonicalize :: "char \<Rightarrow> char" where
  "canonicalize c = (case map_of upper_of c of Some u \<Rightarrow> u | None \<Rightarrow> c)"

text \<open>The word characters of \<^verbatim>\<open>\b\<close>, the white space of \<^verbatim>\<open>\s\<close> and \<^verbatim>\<open>trim\<close>, and the
  line terminators that \<^verbatim>\<open>.\<close> does not match.\<close>

definition is_word_char :: "char \<Rightarrow> bool" where
  "is_word_char c = (c \<in> set (ascii_lower @ ascii_upper @ ''0123456789_''))"

definition is_space_char :: "char \<Rightarrow> bool" where
  "is_space_char c =
     (c \<in> set [CHR 0x09, CHR 0x0A, CHR 0x0B, CHR 0x0C, CHR 0x0D, CHR 0x20, CHR 0xA0])"

definition is_line_terminator :: "char \<Rightarrow> bool" where
  "is_line_terminator c = (c \<in> set [CHR 0x0A, CHR 0x0D])"

text \<open>
  The syntax that the patterns of the repository use. \<open>Chr\<close> is a pattern character,
  \<open>Esc\<close> an escaped syntax character (\<^verbatim>\<open>\(\<close>, \<^verbatim>\<open>\/\<close>), \<open>Letter\<close> the class
  \<^verbatim>\<open>[a-zA-Z]\<close>, \<open>Group\<close> a parenthesised group.
\<close>

datatype regex =
    Chr char
  | Esc char
  | Dot
  | Space
  | WordB
  | Letter
  | Group regex
  | Seq regex regex
  | Alt regex regex
  | Star regex
  | Plus regex
  | Opt regex
  | Empty

text \<open>A position in the input: the code unit before it, if any, and the input that remains.\<close>

type_synonym pos = "char option \<times> string"

definition consume :: "(char \<Rightarrow> bool) \<Rightarrow> pos \<Rightarrow> pos list" where
  "consume P x = (case snd x of [] \<Rightarrow> [] | c # cs \<Rightarrow> if P c then [(Some c, cs)] else [])"

definition at_word_boundary :: "pos \<Rightarrow> bool" where
  "at_word_boundary x =
     ((case fst x of None \<Rightarrow> False | Some c \<Rightarrow> is_word_char c)
      \<noteq> (case snd x of [] \<Rightarrow> False | c # cs \<Rightarrow> is_word_char c))"

definition progressed :: "pos \<Rightarrow> pos \<Rightarrow> bool" where
  "progressed x y = (length (snd y) < length (snd x))"

text \<open>
  A greedy repetition: one more round of the body first, then stopping here. A round that
  consumes nothing is rejected, as the standard does, so the number of rounds is bounded by
  the length of the remaining input.
\<close>

primrec repeat :: "(pos \<Rightarrow> pos list) \<Rightarrow> nat \<Rightarrow> pos \<Rightarrow> pos list" where
  "repeat m 0 x = [x]"
| "repeat m (Suc n) x = concat (map (repeat m n) (filter (progressed x) (m x))) @ [x]"

primrec ends :: "regex \<Rightarrow> pos \<Rightarrow> pos list" where
  "ends (Chr a) x = consume (\<lambda>c. canonicalize c = canonicalize a) x"
| "ends (Esc a) x = consume (\<lambda>c. canonicalize c = canonicalize a) x"
| "ends Dot x = consume (\<lambda>c. \<not> is_line_terminator c) x"
| "ends Space x = consume is_space_char x"
| "ends WordB x = (if at_word_boundary x then [x] else [])"
| "ends Letter x = consume (\<lambda>c. canonicalize c \<in> set ascii_upper) x"
| "ends (Group r) x = ends r x"
| "ends (Seq r s) x = concat (map (ends s) (ends r x))"
| "ends (Alt r s) x = ends r x @ ends s x"
| "ends (Star r) x = repeat (ends r) (length (snd x)) x"
| "ends (Plus r) x = concat (map (\<lambda>y. repeat (ends r) (length (snd y)) y) (ends r x))"
| "ends (Opt r) x = filter (progressed x) (ends r x) @ [x]"
| "ends Empty x = [x]"

text \<open>
  The first match in \<open>s\<close>, searching from the left: the matched text, as
  \<^verbatim>\<open>s.match(r)[0]\<close> gives it, or \<open>None\<close> where the language gives \<^verbatim>\<open>null\<close>.
\<close>

fun exec_from :: "regex \<Rightarrow> char option \<Rightarrow> string \<Rightarrow> string option" where
  "exec_from r p s =
     (case ends r (p, s) of
        y # ys \<Rightarrow> Some (take (length s - length (snd y)) s)
      | [] \<Rightarrow> (case s of [] \<Rightarrow> None | c # cs \<Rightarrow> exec_from r (Some c) cs))"

declare exec_from.simps [simp del]

definition re_exec :: "regex \<Rightarrow> string \<Rightarrow> string option" where
  "re_exec r s = exec_from r None s"

text \<open>\<^verbatim>\<open>r.test(s)\<close> for a pattern without the flag \<^verbatim>\<open>g\<close>.\<close>

definition re_test :: "regex \<Rightarrow> string \<Rightarrow> bool" where
  "re_test r s = (re_exec r s \<noteq> None)"

text \<open>Two positions that differ only in the case of letters.\<close>

definition same_pos :: "pos \<Rightarrow> pos \<Rightarrow> bool" where
  "same_pos x y =
     (map_option canonicalize (fst x) = map_option canonicalize (fst y)
      \<and> map canonicalize (snd x) = map canonicalize (snd y))"

fun seqs :: "regex list \<Rightarrow> regex" where
  "seqs [] = Empty"
| "seqs [r] = r"
| "seqs (r # rs) = Seq r (seqs rs)"

fun alts :: "regex list \<Rightarrow> regex" where
  "alts [] = Empty"
| "alts [r] = r"
| "alts (r # rs) = Alt r (alts rs)"

definition lit :: "string \<Rightarrow> regex" where
  "lit s = seqs (map Chr s)"

definition backslash :: char where
  "backslash = CHR 0x5C"

text \<open>The source text of a pattern, and \<^verbatim>\<open>pattern.toString()\<close>.\<close>

primrec re_source :: "regex \<Rightarrow> string" where
  "re_source (Chr a) = [a]"
| "re_source (Esc a) = [backslash, a]"
| "re_source Dot = ''.''"
| "re_source Space = [backslash, CHR ''s'']"
| "re_source WordB = [backslash, CHR ''b'']"
| "re_source Letter = ''[a-zA-Z]''"
| "re_source (Group r) = ''('' @ re_source r @ '')''"
| "re_source (Seq r s) = re_source r @ re_source s"
| "re_source (Alt r s) = re_source r @ ''|'' @ re_source s"
| "re_source (Star r) = re_source r @ ''*''"
| "re_source (Plus r) = re_source r @ ''+''"
| "re_source (Opt r) = re_source r @ ''?''"
| "re_source Empty = []"

definition toString :: "regex \<Rightarrow> string" where
  "toString r = ''/'' @ re_source r @ ''/i''"

section \<open>Command safety gate and the \<^verbatim>\<open>fs:bash\<close> handler (\<^verbatim>\<open>index.ts\<close>)\<close>

definition BLOCKED_PATTERNS :: "regex list" where
  \<open>BLOCKED_PATTERNS =
    [seqs [WordB, lit ''rm'', Plus Space,
           Group (alts [seqs [Chr CHR ''-'', Star Letter, Chr CHR ''f''],
                        seqs [Chr CHR ''-'', Star Letter, Chr CHR ''r''],
                        lit ''--force'', lit ''--recursive''])],
     seqs [WordB, lit ''rm'', Plus Space, lit ''-rf'', WordB],
     seqs [WordB, lit ''rm'', Plus Space, lit ''-fr'', WordB],
     seqs [WordB, lit ''sudo'', Plus Space, lit ''rm'', WordB],
     seqs [WordB, lit ''mkfs'', WordB],
     seqs [WordB, lit ''dd'', Plus Space, Star Dot, WordB, lit ''of=''],
     seqs [WordB, Chr CHR '':'', Star Dot, Esc CHR ''('', Esc CHR '')'', Star Dot, Esc CHR ''{'',
           Star Dot, Chr CHR '':'', Esc CHR ''|'', Star Dot, Esc CHR ''}''],
     seqs [WordB, lit ''chmod'', Plus Space, Opt (Group (seqs [Chr CHR ''-'', Star Letter])),
           Star Space, Group (alts [lit ''000'', lit ''777'', lit ''a-rwx''])],
     seqs [WordB, lit ''chown'', Plus Space, Star Dot, Esc CHR ''/''],
     seqs [Chr CHR ''>'', Star Space, Esc CHR ''/'', lit ''dev'', Esc CHR ''/'',
           Group (alts [lit ''sda'', lit ''hda'', lit ''null''])]]\<close>

text \<open>The loop over the patterns: the first pattern that the command matches, if any.\<close>

definition check_dangerous :: "string \<Rightarrow> regex option" where
  "check_dangerous command = find (\<lambda>pattern. re_test pattern command) BLOCKED_PATTERNS"

definition blocked_message :: "regex \<Rightarrow> string" where
  \<open>blocked_message pattern =
     ''This command has been blocked for safety. The pattern "'' @ toString pattern
       @ ''" is not allowed. ''
       @ ''Destructive commands like rm -rf, sudo rm, mkfs, dd, etc. are not permitted.''\<close>

text \<open>
  A value thrown or a rejected promise: an \<^verbatim>\<open>Error\<close> with its message and its further
  properties, or any other value.
\<close>

datatype thrown = ErrorObj string "(string \<times> jsval) list" | Thrown jsval

text \<open>\<^verbatim>\<open>error instanceof Error ? error.message : d\<close>\<close>

fun message_or :: "thrown \<Rightarrow> string \<Rightarrow> string" where
  "message_or (ErrorObj m ps) d = m"
| "message_or (Thrown v) d = d"

fun thrown_get :: "thrown \<Rightarrow> string \<Rightarrow> jsval" where
  "thrown_get (ErrorObj m ps) k =
     (if k = ''message'' then JStr m
      else (case map_of ps k of Some v \<Rightarrow> v | None \<Rightarrow> JUndefined))"
| "thrown_get (Thrown v) k = js_get v k"

text \<open>
  The execution primitive \<^verbatim>\<open>execAsync\<close> is a parameter of the model: given the request
  it resolves with the two captured streams or rejects. The handler returns its own result
  together with the requests it has made to the primitive.
\<close>

record exec_request =
  ex_command :: string
  ex_cwd :: string
  ex_timeout :: int
  ex_maxBuffer :: int

record exec_output =
  out_stdout :: string
  out_stderr :: string

type_synonym exec_primitive = "exec_request \<Rightarrow> thrown + exec_output"

record bash_options =
  bo_cwd :: "string option"
  bo_timeout :: "int option"

text \<open>\<^verbatim>\<open>${timeout / 1000}\<close>: a number of milliseconds rendered in seconds.\<close>

definition show_fraction3 :: "nat \<Rightarrow> string" where
  "show_fraction3 r =
     rev (dropWhile (\<lambda>c. c = CHR ''0'')
            (rev [digit_char (r div 100), digit_char (r div 10 mod 10), digit_char (r mod 10)]))"

definition show_thousandths :: "int \<Rightarrow> string" where
  "show_thousandths t =
     (let a = nat \<bar>t\<bar>
      in (if t < 0 then ''-'' else '''') @ show_nat (a div 1000)
         @ (if a mod 1000 = 0 then '''' else ''.'' @ show_fraction3 (a mod 1000)))"

definition fs_bash ::
  "exec_primitive \<Rightarrow> string \<Rightarrow> string \<Rightarrow> bash_options option
     \<Rightarrow> (thrown + jsval) \<times> exec_request list" where
  "fs_bash exec process_cwd command options =
     (case check_dangerous command of
        Some pattern \<Rightarrow> (Inl (ErrorObj (blocked_message pattern) []), [])
      | None \<Rightarrow>
          (let cwd = (case options of
                        None \<Rightarrow> process_cwd
                      | Some opts \<Rightarrow> if str_truthy (bo_cwd opts) then the (bo_cwd opts) else process_cwd);
               timeout = (case options of
                            None \<Rightarrow> 30000
                          | Some opts \<Rightarrow>
                              (case bo_timeout opts of
                                 None \<Rightarrow> 30000
                               | Some t \<Rightarrow> if t = 0 then 30000 else t));
               request = \<lparr>ex_command = command, ex_cwd = cwd, ex_timeout = timeout,
                          ex_maxBuffer = 10 * 1024 * 1024\<rparr>
           in (case exec request of
                 Inr out \<Rightarrow>
                   (Inr (JObj [(''stdout'', JStr (out_stdout out)),
                               (''stderr'', JStr (out_stderr out)),
                               (''exitCode'', JNum 0)]),
                    [request])
               | Inl err \<Rightarrow>
                   if truthy (thrown_get err ''killed'')
                   then (Inl (ErrorObj (''Command timed out after '' @ show_thousandths timeout
                                          @ '' seconds'') []),
                         [request])
                   else (Inr (JObj [(''stdout'', js_or (thrown_get err ''stdout'') (JStr '''')),
                                    (''stderr'', js_or (thrown_get err ''stderr'')
                                                   (JStr (message_or err ''Command failed''))),
                                    (''exitCode'', js_or (thrown_get err ''code'') (JNum 1))]),
                         [request]))))"

section \<open>The \<^verbatim>\<open>bash\<close> tool (\<^verbatim>\<open>tools.ts\<close>)\<close>

text \<open>A value inside a template string.\<close>

fun join_comma :: "string list \<Rightarrow> string" where
  "join_comma [] = []"
| "join_comma [x] = x"
| "join_comma (x # xs) = x @ '','' @ join_comma xs"

fun js_to_string :: "jsval \<Rightarrow> string" where
  "js_to_string JUndefined = ''undefined''"
| "js_to_string JNull = ''null''"
| "js_to_string (JBool b) = (if b then ''true'' else ''false'')"
| "js_to_string (JNum n) = show_int n"
| "js_to_string (JStr s) = s"
| "js_to_string (JArr xs) =
     join_comma (map (\<lambda>v. if v = JUndefined \<or> v = JNull then [] else js_to_string v) xs)"
| "js_to_string (JObj ps) = ''[object Object]''"

text \<open>
  \<^verbatim>\<open>window.api.bash\<close> forwards the call to the \<^verbatim>\<open>fs:bash\<close> handler and brings its
  result, or what it threw, back to the tool.
\<close>

definition bash ::
  "exec_primitive \<Rightarrow> string \<Rightarrow> string \<Rightarrow> string option \<Rightarrow> int option
     \<Rightarrow> jsval \<times> exec_request list" where
  \<open>bash exec process_cwd command cwd timeout =
     (case fs_bash exec process_cwd command
             (Some \<lparr>bo_cwd = cwd,
                    bo_timeout = Some (min (case timeout of
                                              None \<Rightarrow> 30000
                                            | Some t \<Rightarrow> if t = 0 then 30000 else t) 120000)\<rparr>) of
        (Inl error, requests) \<Rightarrow>
          (JObj [(''error'', JBool True),
                 (''message'', JStr (message_or error ''Failed to execute command'')),
                 (''suggestion'',
                  JStr ''This command may be blocked for safety reasons, or the path may be invalid'')],
           requests)
      | (Inr result, requests) \<Rightarrow>
          if js_get result ''exitCode'' \<noteq> JNum 0
          then (JObj [(''success'', JBool False),
                      (''exitCode'', js_get result ''exitCode''),
                      (''stdout'', js_get result ''stdout''),
                      (''stderr'', js_get result ''stderr''),
                      (''message'',
                       JStr (''Command failed with exit code ''
                               @ js_to_string (js_get result ''exitCode''))),
                      (''suggestion'',
                       if truthy (js_get result ''stderr'')
                       then JStr (''Error output: '' @ js_to_string (js_get result ''stderr''))
                       else JStr ''Check the command syntax and try again'')],
                requests)
          else (JObj [(''success'', JBool True),
                      (''exitCode'', JNum 0),
                      (''stdout'', js_get result ''stdout''),
                      (''stderr'', js_or (js_get result ''stderr'') JUndefined)],
                requests))\<close>

text \<open>Two execution primitives for concrete runs: one that succeeds with empty streams, and
  one whose process exits with code 1 and empty streams, rejecting as the platform does.\<close>

definition exec_quiet :: exec_primitive where
  "exec_quiet request = Inr \<lparr>out_stdout = [], out_stderr = []\<rparr>"

definition exec_exit1 :: exec_primitive where
  "exec_exit1 request =
     Inl (ErrorObj (''Command failed: '' @ ex_command request @ [CHR 0x0A])
            [(''code'', JNum 1), (''killed'', JBool False), (''signal'', JNull),
             (''cmd'', JStr (ex_command request)),
             (''stdout'', JStr ''''), (''stderr'', JStr '''')])"

section \<open>Browser tools (\<^verbatim>\<open>tools.ts\<close>, \<^verbatim>\<open>browserStore.ts\<close>)\<close>

text \<open>
  The tools reach the main process through \<^verbatim>\<open>window.api\<close>. The collaborators behind it
  (settings storage, browser automation) are a parameter of the model: a function from the
  name of the method and its arguments to the object it resolves with, or to what it rejects
  with. What a tool does besides returning is recorded in the world it runs in: the flag of
  the browser store, and the sequence of calls made and signals raised.
\<close>

type_synonym api = "string \<Rightarrow> jsval list \<Rightarrow> thrown + jsval"

datatype event = ApiCall string "jsval list" | ShowSelectionDialog bool

record world =
  showSelectionDialog :: bool
  events :: "event list"

definition world_init :: world where
  "world_init = \<lparr>showSelectionDialog = False, events = []\<rparr>"

definition setShowSelectionDialog :: "bool \<Rightarrow> world \<Rightarrow> world" where
  "setShowSelectionDialog show w =
     w\<lparr>showSelectionDialog := show, events := events w @ [ShowSelectionDialog show]\<rparr>"

definition call_api :: "api \<Rightarrow> string \<Rightarrow> jsval list \<Rightarrow> world \<Rightarrow> (thrown + jsval) \<times> world" where
  "call_api a name args w = (a name args, w\<lparr>events := events w @ [ApiCall name args]\<rparr>)"

text \<open>
  Reading a property of \<^verbatim>\<open>null\<close> or \<^verbatim>\<open>undefined\<close> throws a \<^verbatim>\<open>TypeError\<close>, with the
  message the engine of the application gives it. The first thing a browser tool does with
  the result of its call is to read \<^verbatim>\<open>result.error\<close>, inside its \<^verbatim>\<open>try\<close> block: on such
  a result that read throws, and the fault reaches the \<^verbatim>\<open>catch\<close> block as a rejection would.
\<close>

definition is_nullish :: "jsval \<Rightarrow> bool" where
  "is_nullish v = (v = JNull \<or> v = JUndefined)"

definition cannot_read :: "jsval \<Rightarrow> string \<Rightarrow> thrown" where
  "cannot_read v k =
     ErrorObj (''Cannot read properties of '' @ js_to_string v
                 @ '' (reading '' @ [CHR 0x27] @ k @ [CHR 0x27] @ '')'') []"

definition read_error :: "(thrown + jsval) \<times> world \<Rightarrow> (thrown + jsval) \<times> world" where
  "read_error rw =
     (case rw of
        (Inl e, w) \<Rightarrow> (Inl e, w)
      | (Inr result, w) \<Rightarrow>
          if is_nullish result then (Inl (cannot_read result ''error''), w)
          else (Inr result, w))"

text \<open>The object every \<^verbatim>\<open>catch\<close> block builds; the suggestion is left out by some tools.\<close>

definition failure :: "string \<Rightarrow> string option \<Rightarrow> jsval" where
  "failure message suggestion =
     JObj ([(''error'', JBool True), (''message'', JStr message)]
           @ (case suggestion of None \<Rightarrow> [] | Some s \<Rightarrow> [(''suggestion'', JStr s)]))"

definition checkBrowserConfigured :: "api \<Rightarrow> world \<Rightarrow> (thrown + jsval) \<times> world" where
  "checkBrowserConfigured a w =
     (case call_api a ''getSettings'' [] w of
        (Inl e, w1) \<Rightarrow> (Inl e, w1)
      | (Inr settings, w1) \<Rightarrow>
          if \<not> truthy (js_get settings ''preferredBrowser'')
          then (Inr (JObj [(''configured'', JBool False), (''needsSetup'', JBool True)]),
                setShowSelectionDialog True w1)
          else (Inr (JObj [(''configured'', JBool True)]), w1))"

definition browserNavigate :: "api \<Rightarrow> string \<Rightarrow> world \<Rightarrow> jsval \<times> world" where
  \<open>browserNavigate a url w =
     (case checkBrowserConfigured a w of
        (Inl e, w1) \<Rightarrow>
          (failure (message_or e ''Failed to navigate'')
             (Some ''The browser may not be available. Try again.''), w1)
      | (Inr check, w1) \<Rightarrow>
          if \<not> truthy (js_get check ''configured'')
          then (JObj [(''error'', JBool True),
                      (''message'', JStr (''Browser not configured. A dialog has been shown ''
                                           @ ''to the user to select their preferred browser.'')),
                      (''suggestion'', JStr ''Wait for the user to select a browser, then try again.''),
                      (''needsBrowserSetup'', JBool True)],
                w1)
          else
            (case read_error (call_api a ''browserNavigate'' [JStr url] w1) of
               (Inl e, w2) \<Rightarrow>
                 (failure (message_or e ''Failed to navigate'')
                    (Some ''The browser may not be available. Try again.''), w2)
             | (Inr result, w2) \<Rightarrow>
                 if truthy (js_get result ''error'')
                 then (JObj [(''error'', JBool True),
                             (''message'', js_or (js_get result ''message'') (JStr ''Navigation failed'')),
                             (''suggestion'', JStr ''Check if the URL is valid and try again'')],
                       w2)
                 else (JObj [(''success'', JBool True),
                             (''url'', js_get result ''url''),
                             (''title'', js_get result ''title''),
                             (''message'',
                              JStr (''Navigated to ''
                                      @ js_to_string (js_or (js_get result ''title'')
                                                            (js_get result ''url'')))),
                             (''screenshot'', js_get result ''screenshot'')],
                       w2)))\<close>

text \<open>An optional string argument: \<^verbatim>\<open>undefined\<close> when it is left out.\<close>

definition opt_str :: "string option \<Rightarrow> jsval" where
  "opt_str s = (case s of None \<Rightarrow> JUndefined | Some x \<Rightarrow> JStr x)"

definition browserGetContent :: "api \<Rightarrow> string option \<Rightarrow> world \<Rightarrow> jsval \<times> world" where
  \<open>browserGetContent a selector w =
     (case read_error (call_api a ''browserGetContent'' [opt_str selector] w) of
        (Inl e, w1) \<Rightarrow>
          (failure (message_or e ''Failed to get page content'')
             (Some ''Make sure you have navigated to a page first''), w1)
      | (Inr result, w1) \<Rightarrow>
          if truthy (js_get result ''error'')
          then (JObj [(''error'', JBool True),
                      (''message'', js_or (js_get result ''message'') (JStr ''Failed to get content'')),
                      (''suggestion'',
                       if str_truthy selector
                       then JStr ''The selector may not exist on this page. Try a different one.''
                       else JStr ''Navigate to a page first.'')],
                w1)
          else (JObj [(''success'', JBool True),
                      (''url'', js_get result ''url''),
                      (''title'', js_get result ''title''),
                      (''content'', js_get result ''content''),
                      (''screenshot'', js_get result ''screenshot'')],
                w1))\<close>

definition browserClick :: "api \<Rightarrow> string \<Rightarrow> world \<Rightarrow> jsval \<times> world" where
  \<open>browserClick a selector w =
     (case read_error (call_api a ''browserClick'' [JStr selector] w) of
        (Inl e, w1) \<Rightarrow>
          (failure (message_or e ''Failed to click'')
             (Some ''Check if the element exists and is visible''), w1)
      | (Inr result, w1) \<Rightarrow>
          if truthy (js_get result ''error'')
          then (JObj [(''error'', JBool True),
                      (''message'', js_or (js_get result ''message'') (JStr ''Click failed'')),
                      (''suggestion'',
                       JStr ''The element may not exist or may not be clickable. Try a different selector.'')],
                w1)
          else (JObj [(''success'', JBool True),
                      (''url'', js_get result ''url''),
                      (''title'', js_get result ''title''),
                      (''message'', JStr (''Clicked on "'' @ selector @ ''"'')),
                      (''screenshot'', js_get result ''screenshot'')],
                w1))\<close>

definition browserType :: "api \<Rightarrow> string \<Rightarrow> string \<Rightarrow> world \<Rightarrow> jsval \<times> world" where
  \<open>browserType a selector text w =
     (case read_error (call_api a ''browserType'' [JStr selector, JStr text] w) of
        (Inl e, w1) \<Rightarrow>
          (failure (message_or e ''Failed to type'')
             (Some ''Check if the input field exists and is editable''), w1)
      | (Inr result, w1) \<Rightarrow>
          if truthy (js_get result ''error'')
          then (JObj [(''error'', JBool True),
                      (''message'', js_or (js_get result ''message'') (JStr ''Type failed'')),
                      (''suggestion'',
                       JStr ''The input field may not exist. Try a different selector.'')],
                w1)
          else (JObj [(''success'', JBool True),
                      (''message'', JStr (''Typed "'' @ text @ ''" into '' @ selector)),
                      (''screenshot'', js_get result ''screenshot'')],
                w1))\<close>

definition browserPress :: "api \<Rightarrow> string \<Rightarrow> world \<Rightarrow> jsval \<times> world" where
  \<open>browserPress a key w =
     (case read_error (call_api a ''browserPress'' [JStr key] w) of
        (Inl e, w1) \<Rightarrow> (failure (message_or e ''Failed to press key'') None, w1)
      | (Inr result, w1) \<Rightarrow>
          if truthy (js_get result ''error'')
          then (JObj [(''error'', JBool True),
                      (''message'', js_or (js_get result ''message'') (JStr ''Key press failed''))],
                w1)
          else (JObj [(''success'', JBool True),
                      (''url'', js_get result ''url''),
                      (''message'', JStr (''Pressed '' @ key)),
                      (''screenshot'', js_get result ''screenshot'')],
                w1))\<close>

definition browserGetLinks :: "api \<Rightarrow> world \<Rightarrow> jsval \<times> world" where
  \<open>browserGetLinks a w =
     (case read_error (call_api a ''browserGetLinks'' [] w) of
        (Inl e, w1) \<Rightarrow> (failure (message_or e ''Failed to get links'') None, w1)
      | (Inr result, w1) \<Rightarrow>
          if truthy (js_get result ''error'')
          then (JObj [(''error'', JBool True),
                      (''message'', js_or (js_get result ''message'') (JStr ''Failed to get links'')),
                      (''suggestion'', JStr ''Navigate to a page first'')],
                w1)
          else (JObj [(''success'', JBool True),
                      (''count'', js_get result ''count''),
                      (''links'', js_get result ''links'')],
                w1))\<close>

datatype direction = Up | Down | Top | Bottom

fun direction_str :: "direction \<Rightarrow> string" where
  "direction_str Up = ''up''"
| "direction_str Down = ''down''"
| "direction_str Top = ''top''"
| "direction_str Bottom = ''bottom''"

definition browserScroll :: "api \<Rightarrow> direction \<Rightarrow> world \<Rightarrow> jsval \<times> world" where
  \<open>browserScroll a dir w =
     (case read_error (call_api a ''browserScroll'' [JStr (direction_str dir)] w) of
        (Inl e, w1) \<Rightarrow> (failure (message_or e ''Failed to scroll'') None, w1)
      | (Inr result, w1) \<Rightarrow>
          if truthy (js_get result ''error'')
          then (JObj [(''error'', JBool True),
                      (''message'', js_or (js_get result ''message'') (JStr ''Scroll failed''))],
                w1)
          else (JObj [(''success'', JBool True),
                      (''message'', JStr (''Scrolled '' @ direction_str dir)),
                      (''screenshot'', js_get result ''screenshot'')],
                w1))\<close>

definition browserScreenshot :: "api \<Rightarrow> world \<Rightarrow> jsval \<times> world" where
  \<open>browserScreenshot a w =
     (case read_error (call_api a ''browserScreenshot'' [] w) of
        (Inl e, w1) \<Rightarrow> (failure (message_or e ''Failed to take screenshot'') None, w1)
      | (Inr result, w1) \<Rightarrow>
          if truthy (js_get result ''error'')
          then (JObj [(''error'', JBool True),
                      (''message'', js_or (js_get result ''message'') (JStr ''Screenshot failed'')),
                      (''suggestion'', JStr ''Navigate to a page first'')],
                w1)
          else (JObj [(''success'', JBool True),
                      (''url'', js_get result ''url''),
                      (''title'', js_get result ''title''),
                      (''image'', js_get result ''image''),
                      (''message'', JStr ''Screenshot captured'')],
                w1))\<close>

text \<open>
  A setting in which no browser has been chosen and no page is open: the settings record has
  no preferred browser, and every browser operation answers that there is no page.
\<close>

definition api_unconfigured :: api where
  "api_unconfigured name args =
     (if name = ''getSettings''
      then Inr (JObj [(''id'', JStr ''default''), (''preferredBrowser'', JNull)])
      else Inr (JObj [(''error'', JBool True), (''message'', JStr ''No page open'')]))"

section \<open>Skill registry search (\<^verbatim>\<open>skillregistry.ipc.ts\<close>, \<^verbatim>\<open>SkillsMarketplace.tsx\<close>, \<^verbatim>\<open>tools.ts\<close>)\<close>

text \<open>
  The network is a parameter of the model: \<^verbatim>\<open>fetch\<close> maps a URL to a response or to the
  fault it rejects with, and a response carries its \<^verbatim>\<open>ok\<close> flag, its status and what
  \<^verbatim>\<open>response.json()\<close> gives. \<^verbatim>\<open>encodeURIComponent\<close> is a parameter as well.
\<close>

record response =
  resp_ok :: bool
  resp_status :: int
  resp_json :: "thrown + jsval"

type_synonym fetch = "string \<Rightarrow> thrown + response"

text \<open>\<^verbatim>\<open>s.trim()\<close>\<close>

definition trim :: "string \<Rightarrow> string" where
  "trim s = rev (dropWhile is_space_char (rev (dropWhile is_space_char s)))"

text \<open>The handler of \<^verbatim>\<open>skillregistry:search\<close>: every failure ends in the empty list.\<close>

definition skillregistry_search :: "fetch \<Rightarrow> (string \<Rightarrow> string) \<Rightarrow> string \<Rightarrow> jsval" where
  "skillregistry_search fetch encodeURIComponent query =
     (let url = (if trim query \<noteq> []
                 then ''https://skillregistry.io/api/skills?search='' @ encodeURIComponent query
                 else ''https://skillregistry.io/api/skills/featured'')
      in (case fetch url of
            Inl error \<Rightarrow> JArr []
          | Inr response \<Rightarrow>
              if \<not> resp_ok response then JArr []
              else (case resp_json response of
                      Inl error \<Rightarrow> JArr []
                    | Inr data \<Rightarrow>
                        (case data of
                           JArr xs \<Rightarrow> data
                         | _ \<Rightarrow> js_or (js_get data ''skills'') (JArr [])))))"

text \<open>
  \<^verbatim>\<open>window.api.skillRegistrySearch\<close> forwards the query to the handler and brings its
  result back; the handler has no path that throws.
\<close>

definition skillRegistrySearch :: "fetch \<Rightarrow> (string \<Rightarrow> string) \<Rightarrow> string \<Rightarrow> thrown + jsval" where
  "skillRegistrySearch fetch encodeURIComponent query =
     Inr (skillregistry_search fetch encodeURIComponent query)"

text \<open>The search of the marketplace panel.\<close>

definition searchSkillRegistry :: "fetch \<Rightarrow> (string \<Rightarrow> string) \<Rightarrow> string \<Rightarrow> jsval" where
  "searchSkillRegistry fetch encodeURIComponent query =
     (case skillRegistrySearch fetch encodeURIComponent query of
        Inl error \<Rightarrow> JArr []
      | Inr skills \<Rightarrow> skills)"

text \<open>\<^verbatim>\<open>x.length\<close> on a value that is not \<^verbatim>\<open>null\<close> or \<^verbatim>\<open>undefined\<close>.\<close>

fun js_length :: "jsval \<Rightarrow> jsval" where
  "js_length (JArr xs) = JNum (int (length xs))"
| "js_length (JStr s) = JNum (int (length s))"
| "js_length (JObj ps) = js_get (JObj ps) ''length''"
| "js_length v = JUndefined"

text \<open>
  The \<^verbatim>\<open>searchSkills\<close> tool of the agent. It tests \<^verbatim>\<open>skills.length === 0\<close> first and then
  maps over the skills; a value without a \<^verbatim>\<open>map\<close> method, or an element of the array
  that is \<^verbatim>\<open>null\<close>, makes the tool end in its \<^verbatim>\<open>catch\<close> block with the engine's
  \<^verbatim>\<open>TypeError\<close>.
\<close>

definition searchSkills :: "fetch \<Rightarrow> (string \<Rightarrow> string) \<Rightarrow> string \<Rightarrow> jsval" where
  \<open>searchSkills fetch encodeURIComponent query =
     (case skillRegistrySearch fetch encodeURIComponent query of
        Inl error \<Rightarrow>
          failure (message_or error ''Failed to search skills'')
            (Some ''Network error. You can try the browser instead.'')
      | Inr skills \<Rightarrow>
          if is_nullish skills
          then failure (message_or (cannot_read skills ''length'') ''Failed to search skills'')
                 (Some ''Network error. You can try the browser instead.'')
          else if js_length skills = JNum 0
          then JObj [(''success'', JBool True),
                     (''skills'', JArr []),
                     (''message'',
                      JStr (''No skills found for "'' @ query
                              @ ''". You may need to use the browser instead.''))]
          else
            (case skills of
               JArr xs \<Rightarrow>
                 (case find is_nullish xs of
                    Some s \<Rightarrow>
                      failure (message_or (cannot_read s ''id'') ''Failed to search skills'')
                        (Some ''Network error. You can try the browser instead.'')
                  | None \<Rightarrow>
                      JObj [(''success'', JBool True),
                            (''skills'',
                             JArr (map (\<lambda>s. JObj [(''id'', js_get s ''id''),
                                                   (''name'', js_get s ''name''),
                                                   (''description'', js_get s ''description''),
                                                   (''url'',
                                                    JStr (''https://skillregistry.io/skills/''
                                                            @ js_to_string (js_get s ''id'')))])
                                    xs)),
                            (''count'', JNum (int (length xs))),
                            (''message'',
                             JStr (''Found '' @ show_nat (length xs) @ '' skill(s) for "'' @ query
                                     @ ''". Install a relevant skill to use it.''))])
             | _ \<Rightarrow>
                 failure ''skills.map is not a function''
                   (Some ''Network error. You can try the browser instead.'')))\<close>

text \<open>A network that is down: every \<^verbatim>\<open>fetch\<close> rejects.\<close>

definition fetch_offline :: fetch where
  "fetch_offline url = Inl (ErrorObj ''fetch failed'' [])"

section \<open>Content search: the \<^verbatim>\<open>fs:grep\<close> handler (\<^verbatim>\<open>index.ts\<close>) and the \<^verbatim>\<open>grep\<close> tool (\<^verbatim>\<open>tools.ts\<close>)\<close>

text \<open>
  The syntax characters of the pattern language, and the class of the \<^verbatim>\<open>replace\<close> call
  that escapes a pattern, \<^verbatim>\<open>[.*+?^${}()|[\]\\]\<close>, each in the order it is written.
\<close>

definition syntax_characters :: string where
  \<open>syntax_characters = ''^$'' @ [backslash] @ ''.*+?()[]{}|''\<close>

definition escape_class :: string where
  \<open>escape_class = ''.*+?^${}()|[]'' @ [backslash]\<close>

text \<open>\<^verbatim>\<open>pattern.replace(/[.*+?^${}()|[\]\\]/g, '\\$&')\<close>\<close>

definition escape_pattern :: "string \<Rightarrow> string" where
  "escape_pattern pattern =
     concat (map (\<lambda>c. if c \<in> set escape_class then [backslash, c] else [c]) pattern)"

text \<open>
  \<^verbatim>\<open>new RegExp(pattern, 'gi')\<close>. A pattern made only of pattern characters and of escaped
  syntax characters is compiled here, to the sequence of its characters. Every other pattern
  goes to the rest of the platform's compiler, a parameter of the model that answers with a
  compiled pattern of its own or with \<open>None\<close> for a syntax error, and whose compiled
  patterns are matched by a second parameter.
\<close>

fun parse_literal :: "string \<Rightarrow> regex list option" where
  "parse_literal [] = Some []"
| "parse_literal (c # cs) =
     (if c = backslash
      then (case cs of
              [] \<Rightarrow> None
            | d # ds \<Rightarrow>
                if d \<in> set syntax_characters
                then map_option ((#) (Esc d)) (parse_literal ds)
                else None)
      else if c \<in> set syntax_characters then None
      else map_option ((#) (Chr c)) (parse_literal cs))"

datatype 'rx compiled = Known regex | Foreign 'rx

definition RegExp_new :: "(string \<Rightarrow> 'rx option) \<Rightarrow> string \<Rightarrow> 'rx compiled option" where
  "RegExp_new engine pattern =
     (case parse_literal pattern of
        Some rs \<Rightarrow> Some (Known (seqs rs))
      | None \<Rightarrow> map_option Foreign (engine pattern))"

text \<open>\<^verbatim>\<open>line.match(regex)\<close>, read at index 0: the first match, or \<open>None\<close> for \<^verbatim>\<open>null\<close>.\<close>

fun str_match :: "('rx \<Rightarrow> string \<Rightarrow> string option) \<Rightarrow> 'rx compiled \<Rightarrow> string \<Rightarrow> string option" where
  "str_match foreign_match (Known r) line = re_exec r line"
| "str_match foreign_match (Foreign x) line = foreign_match x line"

text \<open>
  The file system is a parameter of the model: \<^verbatim>\<open>resolve\<close>; \<^verbatim>\<open>stat\<close>, \<open>None\<close> where it
  fails and otherwise whether the path is a directory; the files that the glob under a
  directory lists; and \<^verbatim>\<open>readFile\<close>, \<open>None\<close> where it throws.
\<close>

record fs_env =
  fs_resolve :: "string \<Rightarrow> string"
  fs_stat :: "string \<Rightarrow> bool option"
  fs_files :: "string \<Rightarrow> string list"
  fs_readFile :: "string \<Rightarrow> string option"

record grep_match =
  gm_file :: string
  gm_line :: nat
  gm_content :: string
  gm_match :: string

text \<open>\<^verbatim>\<open>content.split('\n')\<close>\<close>

fun split_lines :: "string \<Rightarrow> string list" where
  "split_lines [] = [[]]"
| "split_lines (c # cs) =
     (if c = CHR 0x0A then [] # split_lines cs
      else (case split_lines cs of
              [] \<Rightarrow> [[c]]
            | l # ls \<Rightarrow> (c # l) # ls))"

text \<open>The inner loop, over the lines of one file from index \<open>i\<close>, and the outer one, over
  the files; both stop once \<open>maxResults\<close> results are held.\<close>

fun search_lines ::
  "(string \<Rightarrow> string option) \<Rightarrow> int \<Rightarrow> string \<Rightarrow> nat \<Rightarrow> string list
     \<Rightarrow> grep_match list \<Rightarrow> grep_match list" where
  "search_lines m maxResults filePath i [] results = results"
| "search_lines m maxResults filePath i (line # lines) results =
     (if int (length results) \<ge> maxResults then results
      else (case m line of
              Some matched \<Rightarrow>
                search_lines m maxResults filePath (Suc i) lines
                  (results @ [\<lparr>gm_file = filePath, gm_line = i + 1,
                                gm_content = take 200 (trim line), gm_match = matched\<rparr>])
            | None \<Rightarrow> search_lines m maxResults filePath (Suc i) lines results))"

fun search_files ::
  "(string \<Rightarrow> string option) \<Rightarrow> int \<Rightarrow> (string \<Rightarrow> string option) \<Rightarrow> string list
     \<Rightarrow> grep_match list \<Rightarrow> grep_match list" where
  "search_files m maxResults readFile [] results = results"
| "search_files m maxResults readFile (filePath # files) results =
     (if int (length results) \<ge> maxResults then results
      else (case readFile filePath of
              None \<Rightarrow> search_files m maxResults readFile files results
            | Some content \<Rightarrow>
                search_files m maxResults readFile files
                  (search_lines m maxResults filePath 0 (split_lines content) results)))"

definition fs_grep ::
  "(string \<Rightarrow> 'rx option) \<Rightarrow> ('rx \<Rightarrow> string \<Rightarrow> string option) \<Rightarrow> fs_env
     \<Rightarrow> string \<Rightarrow> string \<Rightarrow> int option \<Rightarrow> thrown + grep_match list" where
  "fs_grep engine foreign_match env pattern searchPath maxResultsOption =
     (let maxResults = (case maxResultsOption of
                          None \<Rightarrow> 100
                        | Some n \<Rightarrow> if n = 0 then 100 else n);
          resolvedPath = fs_resolve env searchPath
      in (case fs_stat env resolvedPath of
            None \<Rightarrow> Inl (ErrorObj (''Path not found: '' @ searchPath) [])
          | Some isDirectory \<Rightarrow>
              (case (case RegExp_new engine pattern of
                       Some regex \<Rightarrow> Some regex
                     | None \<Rightarrow> RegExp_new engine (escape_pattern pattern)) of
                 None \<Rightarrow> Inl (ErrorObj ''Invalid regular expression'' [])
               | Some regex \<Rightarrow>
                   Inr (search_files (str_match foreign_match regex) maxResults (fs_readFile env)
                          (if isDirectory then fs_files env resolvedPath else [resolvedPath])
                          []))))"

definition grep_match_json :: "grep_match \<Rightarrow> jsval" where
  "grep_match_json r =
     JObj [(''file'', JStr (gm_file r)),
           (''line'', JNum (int (gm_line r))),
           (''content'', JStr (gm_content r)),
           (''match'', JStr (gm_match r))]"

definition grep ::
  "(string \<Rightarrow> 'rx option) \<Rightarrow> ('rx \<Rightarrow> string \<Rightarrow> string option) \<Rightarrow> fs_env
     \<Rightarrow> string \<Rightarrow> string \<Rightarrow> int option \<Rightarrow> jsval" where
  \<open>grep engine foreign_match env pattern path maxResults =
     (case fs_grep engine foreign_match env pattern path
             (Some (case maxResults of None \<Rightarrow> 50 | Some n \<Rightarrow> if n = 0 then 50 else n)) of
        Inl error \<Rightarrow>
          failure (message_or error ''Failed to search file contents'')
            (Some ''Check if the path exists and is readable'')
      | Inr results \<Rightarrow>
          if length results = 0
          then JObj [(''matches'', JArr []),
                     (''message'',
                      JStr (''No matches found for "'' @ pattern @ ''" in '' @ path))]
          else JObj [(''matches'', JArr (map grep_match_json results)),
                     (''count'', JNum (int (length results))),
                     (''message'',
                      JStr (''Found '' @ show_nat (length results) @ '' matches for "''
                              @ pattern @ ''"''))])\<close>

text \<open>The compiled form of an escaped pattern: one atom for each character of the pattern
  as it was supplied.\<close>

definition literal_atoms :: "string \<Rightarrow> regex list" where
  "literal_atoms pattern = map (\<lambda>c. if c \<in> set escape_class then Esc c else Chr c) pattern"

text \<open>
  From the words of the specification: a literal, case-insensitive substring match. The
  first place in the line where the pattern stands, letter case apart, gives the matched
  text.
\<close>

fun literal_match :: "string \<Rightarrow> string \<Rightarrow> string option" where
  "literal_match pattern line =
     (if length pattern \<le> length line
         \<and> map canonicalize (take (length pattern) line) = map canonicalize pattern
      then Some (take (length pattern) line)
      else (case line of [] \<Rightarrow> None | c # cs \<Rightarrow> literal_match pattern cs))"

declare literal_match.simps [simp del]

text \<open>
  For concrete runs: a compiler that rejects every pattern handed to it, as the platform
  rejects the unbalanced \<^verbatim>\<open>f(\<close>, and a file system with one file.
\<close>

definition engine_strict :: "string \<Rightarrow> unit option" where
  "engine_strict pattern = None"

definition one_file :: fs_env where
  "one_file =
     \<lparr>fs_resolve = (\<lambda>p. p),
      fs_stat = (\<lambda>p. if p = ''/work/notes.txt'' then Some False else None),
      fs_files = (\<lambda>p. []),
      fs_readFile = (\<lambda>p. if p = ''/work/notes.txt''
                          then Some (''call f(x)'' @ [CHR 0x0A] @ ''done'' @ [CHR 0x0A] @ ''  F(Y) '')
                          else None)\<rparr>"

section \<open>Properties of the todo and question stores\<close>

lemma length_enumerate_from [simp]: "length (enumerate_from i xs) = length xs"
  by (induction xs arbitrary: i) simp_all

text \<open>
  Claim C9. Every \<^verbatim>\<open>todoWrite\<close> call replaces the whole list: whatever the store held
  before, it holds afterwards exactly the items of this call, one per element sent.
  In the scenario, a first call sends one pending item without an id; the id is read back
  from the result and sent again with status completed. After the second call the store
  holds exactly that one item, completed.
\<close>

theorem todoWrite_whole_list_replacement:
  \<open>todos (snd (todoWrite now ts st)) = mappedTodos now ts
   \<and> length (todos (snd (todoWrite now ts st))) = length ts
   \<and> (case todoWrite now1 [\<lparr>in_id = None, in_content = ''Scan repo'', in_status = pending\<rparr>] st of
        (r1, st1) \<Rightarrow>
          (\<exists>i. echoed_id r1 0 = Some i
             \<and> todos st1 = [\<lparr>todo_id = i, todo_content = ''Scan repo'', todo_status = pending\<rparr>]
             \<and> todos (snd (todoWrite now2
                   [\<lparr>in_id = Some i, in_content = ''Scan repo'', in_status = completed\<rparr>] st1))
                 = [\<lparr>todo_id = i, todo_content = ''Scan repo'', todo_status = completed\<rparr>]))\<close>
  by (simp add: todoWrite_def setTodos_def Let_def mappedTodos_def mapTodo_def echoed_id_def
      todo_json_def str_truthy_def)

lemma enumerate_from_zip: "enumerate_from n xs = zip [n..<n + length xs] xs"
proof (induction xs arbitrary: n)
  case Nil
  then show ?case by simp
next
  case (Cons x xs)
  have "[n..<n + length (x # xs)] = n # [Suc n..<Suc n + length xs]"
    by (subst upt_rec) simp
  then show ?case using Cons.IH [of "Suc n"] by simp
qed

lemma collect_answers_own:
  "\<forall>q \<in> set qs. answer_of q = a \<Longrightarrow>
   own_entries (collect_answers qs answers) =
     (\<lambda>k. if k \<noteq> ''__proto__'' \<and> k \<in> q_id ` set qs then Some a else own_entries answers k)"
proof (induction qs arbitrary: answers)
  case Nil
  then show ?case by simp
next
  case (Cons q qs)
  have "own_entries (collect_answers (q # qs) answers) =
      (\<lambda>k. if k \<noteq> ''__proto__'' \<and> k \<in> q_id ` set qs then Some a
           else own_entries (assign_answer (q_id q) (answer_of q) answers) k)"
    using Cons.IH [of "assign_answer (q_id q) (answer_of q) answers"] Cons.prems by simp
  also have "\<dots> = (\<lambda>k. if k \<noteq> ''__proto__'' \<and> k \<in> q_id ` set (q # qs) then Some a
           else own_entries answers k)"
    using Cons.prems by (auto simp: assign_answer_def fun_eq_iff)
  finally show ?case .
qed

lemma collect_answers_proto:
  "\<forall>q \<in> set qs. answer_of q = a \<Longrightarrow>
   proto_entry (collect_answers qs answers) =
     (if ''__proto__'' \<in> q_id ` set qs then Some a else proto_entry answers)"
proof (induction qs arbitrary: answers)
  case Nil
  then show ?case by simp
next
  case (Cons q qs)
  show ?case
    using Cons.IH [of "assign_answer (q_id q) (answer_of q) answers"] Cons.prems
    by (auto simp: assign_answer_def)
qed

lemma answer_of_new_question:
  "answer_of (new_question it) = \<lparr>selectedOption = None, customAnswer = None\<rparr>"
  by (simp add: answer_of_def new_question_def str_truthy_def)

lemma assigned_id_spelled:
  "assigned_id x =
     (case qi_id (snd x) of
        None \<Rightarrow> ''q-'' @ show_nat (fst x)
      | Some s \<Rightarrow> if s = [] then ''q-'' @ show_nat (fst x) else s)"
  by (cases x) (simp add: assigned_id_def str_truthy_def split: option.splits)

lemma new_question_ids:
  "map q_id (map new_question (enumerate_from 0 qs)) =
     map (\<lambda>(i, q). case qi_id q of
                      None \<Rightarrow> ''q-'' @ show_nat i
                    | Some s \<Rightarrow> if s = [] then ''q-'' @ show_nat i else s)
       (zip [0..<length qs] qs)"
  unfolding enumerate_from_zip
  by (simp add: new_question_def assigned_id_spelled split_def)

text \<open>
  Claim C8 asks that \<^verbatim>\<open>setQuestions\<close> followed at once by \<^verbatim>\<open>submitAnswers\<close> return an
  answers object whose keys are exactly the ids of the questions, each bound to an entry
  with neither a selected option nor a custom answer. The code does so for every id but
  \<^verbatim>\<open>__proto__\<close>: the keys of the returned object are the caller's id of each question,
  or \<^verbatim>\<open>q-i\<close> for the question at index \<open>i\<close> whose id is missing or empty, without the key
  \<^verbatim>\<open>__proto__\<close>, and each key is bound to the empty entry. A question list whose only
  question has the id \<^verbatim>\<open>__proto__\<close> gives an object with no key at all.
\<close>

theorem submitAnswers_after_setQuestions_keys:
  \<open>own_entries (fst (submitAnswers (snd (setQuestions now qs st)))) =
     (\<lambda>k. if k \<noteq> ''__proto__''
             \<and> k \<in> set (map (\<lambda>(i, q). case qi_id q of
                                          None \<Rightarrow> ''q-'' @ show_nat i
                                        | Some s \<Rightarrow> if s = [] then ''q-'' @ show_nat i else s)
                           (zip [0..<length qs] qs))
          then Some \<lparr>selectedOption = None, customAnswer = None\<rparr> else None)
   \<and> dom (own_entries (fst (submitAnswers (snd (setQuestions now qs st))))) =
       set (map (\<lambda>(i, q). case qi_id q of
                              None \<Rightarrow> ''q-'' @ show_nat i
                            | Some s \<Rightarrow> if s = [] then ''q-'' @ show_nat i else s)
              (zip [0..<length qs] qs)) - {''__proto__''}
   \<and> dom (own_entries (fst (submitAnswers (snd (setQuestions now
          [\<lparr>qi_id = Some ''__proto__'', qi_question = ''Proceed?'',
            qi_options = [\<lparr>opt_id = ''y'', opt_label = ''Yes''\<rparr>,
                          \<lparr>opt_id = ''n'', opt_label = ''No''\<rparr>],
            qi_allowCustom = True\<rparr>] st))))) = {}\<close>
proof -
  let ?qs = "map new_question (enumerate_from 0 qs)"
  let ?ids = "map (\<lambda>(i, q). case qi_id q of
                              None \<Rightarrow> ''q-'' @ show_nat i
                            | Some s \<Rightarrow> if s = [] then ''q-'' @ show_nat i else s)
              (zip [0..<length qs] qs)"
  have a: "\<forall>q \<in> set ?qs. answer_of q = \<lparr>selectedOption = None, customAnswer = None\<rparr>"
    by (auto simp: answer_of_new_question)
  have ids: "q_id ` set ?qs = set ?ids"
    using new_question_ids [of qs] by (metis set_map)
  have s: "fst (submitAnswers (snd (setQuestions now qs st))) = collect_answers ?qs empty_answers"
    by (simp add: submitAnswers_def setQuestions_def Let_def)
  have e: "own_entries (fst (submitAnswers (snd (setQuestions now qs st)))) =
     (\<lambda>k. if k \<noteq> ''__proto__'' \<and> k \<in> set ?ids
          then Some \<lparr>selectedOption = None, customAnswer = None\<rparr> else None)"
    unfolding s collect_answers_own [OF a] ids empty_answers_def by (simp cong: if_cong)
  have d: "dom (own_entries (fst (submitAnswers (snd (setQuestions now qs st))))) =
      set ?ids - {''__proto__''}"
    unfolding e by (auto simp: dom_def)
  have p: \<open>dom (own_entries (fst (submitAnswers (snd (setQuestions now
          [\<lparr>qi_id = Some ''__proto__'', qi_question = ''Proceed?'',
            qi_options = [\<lparr>opt_id = ''y'', opt_label = ''Yes''\<rparr>,
                          \<lparr>opt_id = ''n'', opt_label = ''No''\<rparr>],
            qi_allowCustom = True\<rparr>] st))))) = {}\<close>
    by (simp add: submitAnswers_def setQuestions_def Let_def new_question_def assigned_id_def
        str_truthy_def assign_answer_def empty_answers_def)
  show ?thesis using e d p by blast
qed

theorem submitAnswers_after_setQuestions_keys_witness:
  \<open>own_entries (fst (submitAnswers (snd (setQuestions 7
      [\<lparr>qi_id = Some ''lang'', qi_question = ''Which language?'',
        qi_options = [\<lparr>opt_id = ''a'', opt_label = ''TypeScript''\<rparr>,
                      \<lparr>opt_id = ''b'', opt_label = ''Rust''\<rparr>], qi_allowCustom = True\<rparr>,
       \<lparr>qi_id = None, qi_question = ''Which editor?'',
        qi_options = [\<lparr>opt_id = ''a'', opt_label = ''Vim''\<rparr>,
                      \<lparr>opt_id = ''b'', opt_label = ''Emacs''\<rparr>], qi_allowCustom = False\<rparr>,
       \<lparr>qi_id = Some ''__proto__'', qi_question = ''Proceed?'',
        qi_options = [\<lparr>opt_id = ''y'', opt_label = ''Yes''\<rparr>,
                      \<lparr>opt_id = ''n'', opt_label = ''No''\<rparr>], qi_allowCustom = True\<rparr>]
      question_store_init)))) =
     (\<lambda>k. if k = ''lang'' \<or> k = ''q-1''
          then Some \<lparr>selectedOption = None, customAnswer = None\<rparr> else None)\<close>
proof -
  have u: "[0..<Suc (Suc (Suc 0))] = [0, Suc 0, Suc (Suc 0)]"
    by (simp add: upt_rec)
  from submitAnswers_after_setQuestions_keys [of 7
      \<open>[\<lparr>qi_id = Some ''lang'', qi_question = ''Which language?'',
        qi_options = [\<lparr>opt_id = ''a'', opt_label = ''TypeScript''\<rparr>,
                      \<lparr>opt_id = ''b'', opt_label = ''Rust''\<rparr>], qi_allowCustom = True\<rparr>,
       \<lparr>qi_id = None, qi_question = ''Which editor?'',
        qi_options = [\<lparr>opt_id = ''a'', opt_label = ''Vim''\<rparr>,
                      \<lparr>opt_id = ''b'', opt_label = ''Emacs''\<rparr>], qi_allowCustom = False\<rparr>,
       \<lparr>qi_id = Some ''__proto__'', qi_question = ''Proceed?'',
        qi_options = [\<lparr>opt_id = ''y'', opt_label = ''Yes''\<rparr>,
                      \<lparr>opt_id = ''n'', opt_label = ''No''\<rparr>], qi_allowCustom = True\<rparr>]\<close>
      question_store_init]
  have \<open>own_entries (fst (submitAnswers (snd (setQuestions 7
      [\<lparr>qi_id = Some ''lang'', qi_question = ''Which language?'',
        qi_options = [\<lparr>opt_id = ''a'', opt_label = ''TypeScript''\<rparr>,
                      \<lparr>opt_id = ''b'', opt_label = ''Rust''\<rparr>], qi_allowCustom = True\<rparr>,
       \<lparr>qi_id = None, qi_question = ''Which editor?'',
        qi_options = [\<lparr>opt_id = ''a'', opt_label = ''Vim''\<rparr>,
                      \<lparr>opt_id = ''b'', opt_label = ''Emacs''\<rparr>], qi_allowCustom = False\<rparr>,
       \<lparr>qi_id = Some ''__proto__'', qi_question = ''Proceed?'',
        qi_options = [\<lparr>opt_id = ''y'', opt_label = ''Yes''\<rparr>,
                      \<lparr>opt_id = ''n'', opt_label = ''No''\<rparr>], qi_allowCustom = True\<rparr>]
      question_store_init)))) =
     (\<lambda>k. if k \<noteq> ''__proto__'' \<and> (k = ''lang'' \<or> k = ''q-1'' \<or> k = ''__proto__'')
          then Some \<lparr>selectedOption = None, customAnswer = None\<rparr> else None)\<close>
    by (simp add: u show_nat.simps digit_char_def)
  then show ?thesis by (auto simp: fun_eq_iff)
qed

lemma mutually_exclusive_step:
  "mutually_exclusive st \<Longrightarrow> mutually_exclusive (question_step a st)"
  by (cases a)
     (auto simp: mutually_exclusive_def active_questions_def setQuestions_def Let_def
        selectOption_def setCustomAnswer_def nextQuestion_def prevQuestion_def
        submitAnswers_def clearQuestions_def new_question_def list_all_iff
        split: option.splits)

lemma mutually_exclusive_run:
  "mutually_exclusive st \<Longrightarrow> mutually_exclusive (question_run as st)"
  by (induction as arbitrary: st) (simp_all add: mutually_exclusive_step)

lemma mutually_exclusive_init: "mutually_exclusive question_store_init"
  by (simp add: mutually_exclusive_def active_questions_def question_store_init_def)

text \<open>
  Claim C7. \<^verbatim>\<open>selectOption\<close> sets the option id and clears the custom answer on every
  question with the given id; \<^verbatim>\<open>setCustomAnswer\<close> sets the custom answer and clears the
  option id; both leave the other questions as they were. Hence, from the empty store, after
  any sequence of store actions no question holds both a selected option id and a custom
  answer.
\<close>

theorem selection_and_custom_answer_exclusive:
  "active_questions (selectOption qid oid st) =
     map (\<lambda>q. if q_id q = qid then q\<lparr>q_selectedOptionId := Some oid, q_customAnswer := None\<rparr> else q)
       (active_questions st)
   \<and> active_questions (setCustomAnswer qid txt st) =
     map (\<lambda>q. if q_id q = qid then q\<lparr>q_selectedOptionId := None, q_customAnswer := Some txt\<rparr> else q)
       (active_questions st)
   \<and> mutually_exclusive (question_run as question_store_init)"
  by (simp add: mutually_exclusive_run mutually_exclusive_init active_questions_def
      selectOption_def setCustomAnswer_def split: option.splits)

theorem selection_and_custom_answer_exclusive_witness:
  \<open>mutually_exclusive (question_run
      [SetQuestions 7 [\<lparr>qi_id = None, qi_question = ''Proceed?'',
         qi_options = [\<lparr>opt_id = ''y'', opt_label = ''Yes''\<rparr>, \<lparr>opt_id = ''n'', opt_label = ''No''\<rparr>],
         qi_allowCustom = True\<rparr>],
       SelectOption ''q-0'' ''y'', SetCustomAnswer ''q-0'' ''later'']
      question_store_init)
   \<and> map (\<lambda>q. (q_selectedOptionId q, q_customAnswer q)) (active_questions (question_run
      [SetQuestions 7 [\<lparr>qi_id = None, qi_question = ''Proceed?'',
         qi_options = [\<lparr>opt_id = ''y'', opt_label = ''Yes''\<rparr>, \<lparr>opt_id = ''n'', opt_label = ''No''\<rparr>],
         qi_allowCustom = True\<rparr>],
       SelectOption ''q-0'' ''y'', SetCustomAnswer ''q-0'' ''later'']
      question_store_init)) = [(None, Some ''later'')]\<close>
  using selection_and_custom_answer_exclusive [of _ _ _ _
      \<open>[SetQuestions 7 [\<lparr>qi_id = None, qi_question = ''Proceed?'',
         qi_options = [\<lparr>opt_id = ''y'', opt_label = ''Yes''\<rparr>, \<lparr>opt_id = ''n'', opt_label = ''No''\<rparr>],
         qi_allowCustom = True\<rparr>],
       SelectOption ''q-0'' ''y'', SetCustomAnswer ''q-0'' ''later'']\<close>]
  by (simp add: question_store_init_def setQuestions_def Let_def selectOption_def
      setCustomAnswer_def active_questions_def new_question_def assigned_id_def str_truthy_def
      show_nat.simps digit_char_def)

section \<open>Properties of the \<^verbatim>\<open>bash\<close> tool\<close>

lemma bash_snd: "snd (bash exec pcwd command cwd timeout) =
   snd (fs_bash exec pcwd command
             (Some \<lparr>bo_cwd = cwd,
                    bo_timeout = Some (min (case timeout of
                                              None \<Rightarrow> 30000
                                            | Some t \<Rightarrow> if t = 0 then 30000 else t) 120000)\<rparr>))"
  unfolding bash_def by (simp split: prod.splits sum.splits)

lemma fs_bash_blocked:
  "check_dangerous command = Some p \<Longrightarrow>
   fs_bash exec pcwd command opts = (Inl (ErrorObj (blocked_message p) []), [])"
  by (simp add: fs_bash_def)

lemma fs_bash_allowed_requests:
  "check_dangerous command = None \<Longrightarrow> t \<noteq> 0 \<Longrightarrow>
   snd (fs_bash exec pcwd command (Some \<lparr>bo_cwd = cwd, bo_timeout = Some t\<rparr>)) =
     [\<lparr>ex_command = command,
       ex_cwd = (if str_truthy cwd then the cwd else pcwd),
       ex_timeout = t,
       ex_maxBuffer = 10485760\<rparr>]"
  by (simp add: fs_bash_def Let_def split: sum.splits)

lemma effective_timeout_nonzero:
  "min (case timeout of None \<Rightarrow> 30000 | Some t \<Rightarrow> if t = 0 then 30000 else t) (120000::int) \<noteq> 0"
  by (simp add: min_def split: option.splits)

lemma effective_timeout_eq:
  "min (case timeout of None \<Rightarrow> 30000 | Some t \<Rightarrow> if t = 0 then 30000 else t) (120000::int)
   = (case timeout of None \<Rightarrow> 30000 | Some t \<Rightarrow> if t = 0 then 30000 else min t 120000)"
  by (simp add: min_def split: option.splits)

lemma bash_requests:
  "snd (bash exec pcwd command cwd timeout) =
     (if check_dangerous command = None
      then [\<lparr>ex_command = command,
             ex_cwd = (if str_truthy cwd then the cwd else pcwd),
             ex_timeout = (case timeout of None \<Rightarrow> 30000
                           | Some t \<Rightarrow> if t = 0 then 30000 else min t 120000),
             ex_maxBuffer = 10485760\<rparr>]
      else [])"
proof (cases "check_dangerous command")
  case None
  show ?thesis
    unfolding bash_snd
    using fs_bash_allowed_requests [OF None effective_timeout_nonzero, of exec pcwd cwd timeout] None
    by (simp add: effective_timeout_eq)
next
  case (Some p)
  then show ?thesis unfolding bash_snd by (simp add: fs_bash_blocked)
qed

lemma ls_allowed: "check_dangerous ''ls'' = None"
  by code_simp

text \<open>
  Claim C5, as the code has it. An invocation of the \<^verbatim>\<open>bash\<close> tool with an allowed command
  makes exactly one request to the execution primitive, and the timeout of that request is
  \<open>min t 120000\<close> when the caller supplies a timeout \<open>t\<close> other than zero, and 30000 when
  the timeout is absent or zero; a blocked command makes no request. In particular
  \<^verbatim>\<open>bash("ls", {timeout: 200000})\<close> dispatches with timeout 120000.
\<close>

theorem bash_timeout_dispatched:
  "map ex_timeout (snd (bash exec pcwd command cwd timeout)) =
     (if check_dangerous command = None
      then [case timeout of None \<Rightarrow> 30000
            | Some t \<Rightarrow> if t = 0 then 30000 else min t 120000]
      else [])
   \<and> map ex_timeout (snd (bash exec pcwd ''ls'' cwd (Some 200000))) = [120000]"
  by (simp add: bash_requests ls_allowed)

theorem bash_timeout_dispatched_witness:
  "check_dangerous ''ls'' = None
   \<and> map ex_timeout (snd (bash exec_quiet ''/home/user'' ''ls'' None (Some 45000))) = [45000]
   \<and> map ex_timeout (snd (bash exec_quiet ''/home/user'' ''ls'' None None)) = [30000]"
  using bash_timeout_dispatched [of exec_quiet "''/home/user''" "''ls''" None "Some 45000"]
    bash_timeout_dispatched [of exec_quiet "''/home/user''" "''ls''" None None]
  by (simp add: ls_allowed)

text \<open>
  The claim as stated fails for a supplied timeout of zero: the request carries 30000, not
  \<open>min 0 120000\<close>.
\<close>

theorem bash_timeout_zero_counterexample:
  "\<not> (map ex_timeout (snd (bash exec_quiet ''/home/user'' ''ls'' None (Some 0)))
        = [min 0 120000])"
  by (simp add: bash_requests ls_allowed)

lemma fs_bash_nonzero_exit:
  assumes "check_dangerous command = None"
    and "\<forall>request. ex_command request = command \<longrightarrow> exec request = Inl err"
    and "\<not> truthy (thrown_get err ''killed'')"
  shows "\<exists>requests. fs_bash exec pcwd command opts =
     (Inr (JObj [(''stdout'', js_or (thrown_get err ''stdout'') (JStr '''')),
                (''stderr'', js_or (thrown_get err ''stderr'')
                               (JStr (message_or err ''Command failed''))),
                (''exitCode'', js_or (thrown_get err ''code'') (JNum 1))]), requests)"
  using assms by (simp add: fs_bash_def Let_def)

lemma bash_of_result:
  "fs_bash exec pcwd command
             (Some \<lparr>bo_cwd = cwd,
                    bo_timeout = Some (min (case timeout of
                                              None \<Rightarrow> 30000
                                            | Some t \<Rightarrow> if t = 0 then 30000 else t) 120000)\<rparr>)
     = (Inr result, requests) \<Longrightarrow> js_get result ''exitCode'' \<noteq> JNum 0 \<Longrightarrow>
   fst (bash exec pcwd command cwd timeout) =
     JObj [(''success'', JBool False),
           (''exitCode'', js_get result ''exitCode''),
           (''stdout'', js_get result ''stdout''),
           (''stderr'', js_get result ''stderr''),
           (''message'',
            JStr (''Command failed with exit code ''
                    @ js_to_string (js_get result ''exitCode''))),
           (''suggestion'',
            if truthy (js_get result ''stderr'')
            then JStr (''Error output: '' @ js_to_string (js_get result ''stderr''))
            else JStr ''Check the command syntax and try again'')]"
  unfolding bash_def by simp

lemma bash_nonzero_exit_result:
  assumes "check_dangerous command = None"
    and "\<forall>request. ex_command request = command \<longrightarrow> exec request = Inl err"
    and "\<not> truthy (thrown_get err ''killed'')"
    and "thrown_get err ''code'' = JNum n" and "n \<noteq> 0"
    and "thrown_get err ''stdout'' = JStr out"
    and "thrown_get err ''stderr'' = JStr errout"
  shows "fst (bash exec pcwd command cwd timeout) =
     (let shown = (if errout = [] then message_or err ''Command failed'' else errout)
      in JObj [(''success'', JBool False),
               (''exitCode'', JNum n),
               (''stdout'', JStr out),
               (''stderr'', JStr shown),
               (''message'', JStr (''Command failed with exit code '' @ show_int n)),
               (''suggestion'',
                if shown = [] then JStr ''Check the command syntax and try again''
                else JStr (''Error output: '' @ shown))])"
proof -
  let ?result = "JObj [(''stdout'', js_or (thrown_get err ''stdout'') (JStr '''')),
                (''stderr'', js_or (thrown_get err ''stderr'')
                               (JStr (message_or err ''Command failed''))),
                (''exitCode'', js_or (thrown_get err ''code'') (JNum 1))]"
  have code: "js_get ?result ''exitCode'' = JNum n"
    using assms(4,5) by (simp add: js_or_def)
  have ne: "js_get ?result ''exitCode'' \<noteq> JNum 0"
    unfolding code using assms(5) by simp
  have so: "js_get ?result ''stdout'' = JStr out"
    using assms(6) by (simp add: js_or_def)
  have se: "js_get ?result ''stderr'' =
      JStr (if errout = [] then message_or err ''Command failed'' else errout)"
    using assms(7) by (simp add: js_or_def)
  from fs_bash_nonzero_exit [OF assms(1,2,3)]
  obtain requests where r: "fs_bash exec pcwd command
             (Some \<lparr>bo_cwd = cwd,
                    bo_timeout = Some (min (case timeout of
                                              None \<Rightarrow> 30000
                                            | Some t \<Rightarrow> if t = 0 then 30000 else t) 120000)\<rparr>)
     = (Inr ?result, requests)"
    by blast
  show ?thesis
    unfolding bash_of_result [OF r ne] code so se
    by (simp add: Let_def)
qed

lemma false_allowed: "check_dangerous ''false'' = None"
  by code_simp

text \<open>
  Claim C4, as the code has it. For an allowed command whose process ends with a non-zero
  exit code (the primitive rejects with that code, not killed), the \<^verbatim>\<open>bash\<close> tool returns
  a failure object, never a fault, that carries the exit code and the captured standard
  output; its \<^verbatim>\<open>stderr\<close> field carries the captured standard error when that is not empty,
  and the message of the rejection in its place when it is empty.
\<close>

theorem bash_nonzero_exit_failure:
  assumes "check_dangerous command = None"
    and "\<forall>request. ex_command request = command \<longrightarrow> exec request = Inl err"
    and "\<not> truthy (thrown_get err ''killed'')"
    and "thrown_get err ''code'' = JNum n" and "n \<noteq> 0"
    and "thrown_get err ''stdout'' = JStr out"
    and "thrown_get err ''stderr'' = JStr errout"
  shows "fst (bash exec pcwd command cwd timeout) =
     (let shown = (if errout = [] then message_or err ''Command failed'' else errout)
      in JObj [(''success'', JBool False),
               (''exitCode'', JNum n),
               (''stdout'', JStr out),
               (''stderr'', JStr shown),
               (''message'', JStr (''Command failed with exit code '' @ show_int n)),
               (''suggestion'',
                if shown = [] then JStr ''Check the command syntax and try again''
                else JStr (''Error output: '' @ shown))])"
  using assms by (rule bash_nonzero_exit_result)

theorem bash_nonzero_exit_failure_witness:
  "check_dangerous ''false'' = None
   \<and> fst (bash exec_exit1 ''/home/user'' ''false'' None None) =
       JObj [(''success'', JBool False),
             (''exitCode'', JNum 1),
             (''stdout'', JStr ''''),
             (''stderr'', JStr (''Command failed: false'' @ [CHR 0x0A])),
             (''message'', JStr ''Command failed with exit code 1''),
             (''suggestion'', JStr (''Error output: Command failed: false'' @ [CHR 0x0A]))]"
  using bash_nonzero_exit_failure [of "''false''" exec_exit1
      "ErrorObj (''Command failed: false'' @ [CHR 0x0A])
            [(''code'', JNum 1), (''killed'', JBool False), (''signal'', JNull),
             (''cmd'', JStr ''false''),
             (''stdout'', JStr ''''), (''stderr'', JStr '''')]" 1 "''''" "''''"
      "''/home/user''" None None]
  by (simp add: false_allowed exec_exit1_def show_int_def show_nat.simps digit_char_def Let_def)

text \<open>
  The claim as stated fails where the process writes nothing to standard error: the command
  \<^verbatim>\<open>false\<close> exits with code 1 and empty streams, and the \<^verbatim>\<open>stderr\<close> field of the result
  is not the captured (empty) standard error.
\<close>

theorem bash_empty_stderr_counterexample:
  "\<not> (js_get (fst (bash exec_exit1 ''/home/user'' ''false'' None None)) ''stderr'' = JStr '''')"
proof -
  let ?err = "ErrorObj (''Command failed: false'' @ [CHR 0x0A])
            [(''code'', JNum 1), (''killed'', JBool False), (''signal'', JNull),
             (''cmd'', JStr ''false''),
             (''stdout'', JStr ''''), (''stderr'', JStr '''')]"
  have a: "\<forall>request. ex_command request = ''false'' \<longrightarrow> exec_exit1 request = Inl ?err"
    by (simp add: exec_exit1_def)
  have k: "\<not> truthy (thrown_get ?err ''killed'')" by simp
  have c: "thrown_get ?err ''code'' = JNum 1" by simp
  have nz: "(1::int) \<noteq> 0" by simp
  have so: "thrown_get ?err ''stdout'' = JStr []" by simp
  have se: "thrown_get ?err ''stderr'' = JStr []" by simp
  have "js_get (fst (bash exec_exit1 ''/home/user'' ''false'' None None)) ''stderr''
      = JStr (''Command failed: false'' @ [CHR 0x0A])"
    unfolding bash_nonzero_exit_result [OF false_allowed a k c nz so se] by (simp add: Let_def)
  then show ?thesis by simp
qed

section \<open>Properties of the command safety gate\<close>

text \<open>The source text of the ten patterns, as \<^verbatim>\<open>index.ts\<close> writes them.\<close>

lemma toString_patterns:
  \<open>map toString BLOCKED_PATTERNS =
    [''/'' @ [backslash] @ ''brm'' @ [backslash] @ ''s+(-[a-zA-Z]*f|-[a-zA-Z]*r|--force|--recursive)/i'',
     ''/'' @ [backslash] @ ''brm'' @ [backslash] @ ''s+-rf'' @ [backslash] @ ''b/i'',
     ''/'' @ [backslash] @ ''brm'' @ [backslash] @ ''s+-fr'' @ [backslash] @ ''b/i'',
     ''/'' @ [backslash] @ ''bsudo'' @ [backslash] @ ''s+rm'' @ [backslash] @ ''b/i'',
     ''/'' @ [backslash] @ ''bmkfs'' @ [backslash] @ ''b/i'',
     ''/'' @ [backslash] @ ''bdd'' @ [backslash] @ ''s+.*'' @ [backslash] @ ''bof=/i'',
     ''/'' @ [backslash] @ ''b:.*'' @ [backslash] @ ''('' @ [backslash] @ '').*'' @ [backslash] @ ''{.*:''
        @ [backslash] @ ''|.*'' @ [backslash] @ ''}/i'',
     ''/'' @ [backslash] @ ''bchmod'' @ [backslash] @ ''s+(-[a-zA-Z]*)?'' @ [backslash]
        @ ''s*(000|777|a-rwx)/i'',
     ''/'' @ [backslash] @ ''bchown'' @ [backslash] @ ''s+.*'' @ [backslash] @ ''//i'',
     ''/>'' @ [backslash] @ ''s*'' @ [backslash] @ ''/dev'' @ [backslash] @ ''/(sda|hda|null)/i'']\<close>
  by (simp add: BLOCKED_PATTERNS_def toString_def lit_def)

lemma find_first:
  "p \<in> set ps \<Longrightarrow> P p \<Longrightarrow> \<exists>q. find P ps = Some q \<and> q \<in> set ps \<and> P q"
  by (induction ps) auto

lemma bash_blocked_result:
  \<open>check_dangerous command = Some q \<Longrightarrow>
   bash exec pcwd command cwd timeout =
     (JObj [(''error'', JBool True),
            (''message'', JStr (blocked_message q)),
            (''suggestion'',
             JStr ''This command may be blocked for safety reasons, or the path may be invalid'')],
      [])\<close>
  by (simp add: bash_def fs_bash_blocked)

lemma upper_of_pairs:
  "list_all (\<lambda>(c, u). is_word_char u = is_word_char c
      \<and> is_space_char u = is_space_char c
      \<and> is_line_terminator u = is_line_terminator c) upper_of"
  by code_simp

lemma canonicalize_cases:
  "canonicalize c = c \<or> (c, canonicalize c) \<in> set upper_of"
  by (auto simp: canonicalize_def split: option.splits dest: map_of_SomeD)

lemma canonicalize_preserves:
  "is_word_char (canonicalize c) = is_word_char c"
  "is_space_char (canonicalize c) = is_space_char c"
  "is_line_terminator (canonicalize c) = is_line_terminator c"
  using canonicalize_cases [of c] upper_of_pairs
  by (auto simp: list_all_iff)

lemma same_canon_pred:
  assumes "canonicalize c = canonicalize d"
  shows "is_word_char c = is_word_char d" "is_space_char c = is_space_char d"
    "is_line_terminator c = is_line_terminator d"
  using assms canonicalize_preserves [of c] canonicalize_preserves [of d] by simp_all

lemma same_pos_length: "same_pos x y \<Longrightarrow> length (snd x) = length (snd y)"
  unfolding same_pos_def by (metis length_map)

lemma same_pos_progressed:
  "same_pos x y \<Longrightarrow> same_pos a b \<Longrightarrow> progressed x a = progressed y b"
  by (simp add: progressed_def same_pos_length)

lemma consume_same:
  assumes "\<And>c d. canonicalize c = canonicalize d \<Longrightarrow> P c = P d" and "same_pos x y"
  shows "list_all2 same_pos (consume P x) (consume P y)"
proof (cases "snd x")
  case Nil
  then have "snd y = []" using assms(2) by (simp add: same_pos_def)
  with Nil show ?thesis by (simp add: consume_def)
next
  case (Cons c cs)
  then obtain d ds where d: "snd y = d # ds" "canonicalize c = canonicalize d"
    "map canonicalize cs = map canonicalize ds"
    using assms(2) by (auto simp: same_pos_def)
  with Cons assms(1) [OF d(2)] show ?thesis
    by (simp add: consume_def same_pos_def)
qed

lemma at_word_boundary_same:
  assumes "same_pos x y"
  shows "at_word_boundary x = at_word_boundary y"
proof -
  have a: "(case fst x of None \<Rightarrow> False | Some c \<Rightarrow> is_word_char c)
         = (case fst y of None \<Rightarrow> False | Some c \<Rightarrow> is_word_char c)"
    using assms by (auto simp: same_pos_def split: option.splits dest: same_canon_pred(1))
  have b: "(case snd x of [] \<Rightarrow> False | c # cs \<Rightarrow> is_word_char c)
         = (case snd y of [] \<Rightarrow> False | c # cs \<Rightarrow> is_word_char c)"
    using assms by (auto simp: same_pos_def split: list.splits dest: same_canon_pred(1))
  show ?thesis unfolding at_word_boundary_def a b ..
qed

lemma list_all2_concat_map:
  assumes "list_all2 R xs ys" and "\<And>x y. R x y \<Longrightarrow> list_all2 R (f x) (g y)"
  shows "list_all2 R (concat (map f xs)) (concat (map g ys))"
  using assms(1)
proof (induction rule: list_all2_induct)
  case Nil
  then show ?case by simp
next
  case (Cons x xs y ys)
  then show ?case by (simp add: assms(2) list_all2_appendI)
qed

lemma list_all2_filter_same:
  assumes "list_all2 R xs ys" and "\<And>x y. R x y \<Longrightarrow> P x = Q y"
  shows "list_all2 R (filter P xs) (filter Q ys)"
  using assms(1)
proof (induction rule: list_all2_induct)
  case Nil
  then show ?case by simp
next
  case (Cons x xs y ys)
  then show ?case using assms(2) [of x y] by simp
qed

lemma repeat_same:
  assumes m: "\<And>x y. same_pos x y \<Longrightarrow> list_all2 same_pos (m x) (m y)"
  shows "same_pos x y \<Longrightarrow> list_all2 same_pos (repeat m n x) (repeat m n y)"
proof (induction n arbitrary: x y)
  case 0
  then show ?case by simp
next
  case (Suc n)
  have f: "list_all2 same_pos (filter (progressed x) (m x)) (filter (progressed y) (m y))"
    by (rule list_all2_filter_same [OF m [OF Suc.prems]])
       (rule same_pos_progressed [OF Suc.prems])
  have "list_all2 same_pos (concat (map (repeat m n) (filter (progressed x) (m x))))
          (concat (map (repeat m n) (filter (progressed y) (m y))))"
    by (rule list_all2_concat_map [OF f]) (rule Suc.IH)
  then show ?case using Suc.prems by (simp add: list_all2_appendI)
qed

lemma ends_same:
  "same_pos x y \<Longrightarrow> list_all2 same_pos (ends r x) (ends r y)"
proof (induction r arbitrary: x y)
  case (Chr a)
  show ?case unfolding ends.simps
    by (rule consume_same [OF _ Chr.prems]) simp
next
  case (Esc a)
  show ?case unfolding ends.simps
    by (rule consume_same [OF _ Esc.prems]) simp
next
  case Dot
  show ?case unfolding ends.simps
    by (rule consume_same [OF _ Dot.prems]) (drule same_canon_pred(3), simp)
next
  case Space
  show ?case unfolding ends.simps
    by (rule consume_same [OF _ Space.prems]) (rule same_canon_pred(2))
next
  case WordB
  show ?case
    using at_word_boundary_same [OF WordB.prems] WordB.prems by simp
next
  case Letter
  show ?case unfolding ends.simps
    by (rule consume_same [OF _ Letter.prems]) simp
next
  case (Group r)
  then show ?case by simp
next
  case (Seq r s)
  show ?case
    unfolding ends.simps
    by (rule list_all2_concat_map [OF Seq.IH(1) [OF Seq.prems]]) (rule Seq.IH(2))
next
  case (Alt r s)
  show ?case unfolding ends.simps
    by (rule list_all2_appendI [OF Alt.IH(1) [OF Alt.prems] Alt.IH(2) [OF Alt.prems]])
next
  case (Star r)
  show ?case
    unfolding ends.simps same_pos_length [OF Star.prems]
    by (rule repeat_same [OF Star.IH Star.prems])
next
  case (Plus r)
  have "\<And>a b. same_pos a b \<Longrightarrow>
      list_all2 same_pos (repeat (ends r) (length (snd a)) a) (repeat (ends r) (length (snd b)) b)"
  proof -
    fix a b :: pos
    assume ab: "same_pos a b"
    show "list_all2 same_pos (repeat (ends r) (length (snd a)) a)
            (repeat (ends r) (length (snd b)) b)"
      unfolding same_pos_length [OF ab] by (rule repeat_same [OF Plus.IH ab])
  qed
  then show ?case
    unfolding ends.simps
    by (rule list_all2_concat_map [OF Plus.IH [OF Plus.prems]])
next
  case (Opt r)
  have "list_all2 same_pos (filter (progressed x) (ends r x)) (filter (progressed y) (ends r y))"
    by (rule list_all2_filter_same [OF Opt.IH [OF Opt.prems]])
       (rule same_pos_progressed [OF Opt.prems])
  then show ?case unfolding ends.simps
    by (rule list_all2_appendI) (simp add: Opt.prems)
next
  case Empty
  then show ?case by simp
qed

lemma exec_from_None_iff:
  "(exec_from r p s = None) =
     (ends r (p, s) = [] \<and> (case s of [] \<Rightarrow> True | c # cs \<Rightarrow> exec_from r (Some c) cs = None))"
  by (subst exec_from.simps) (simp split: list.splits)

lemma list_all2_Nil_iff: "list_all2 R xs ys \<Longrightarrow> (xs = []) = (ys = [])"
  by (cases xs; cases ys) simp_all

lemma exec_from_same:
  "map canonicalize s = map canonicalize t \<Longrightarrow>
   map_option canonicalize p = map_option canonicalize q \<Longrightarrow>
   (exec_from r p s = None) = (exec_from r q t = None)"
proof (induction s arbitrary: t p q)
  case Nil
  then have t: "t = []" by simp
  have "list_all2 same_pos (ends r (p, [])) (ends r (q, []))"
    by (rule ends_same) (simp add: same_pos_def Nil.prems(2))
  then have "(ends r (p, []) = []) = (ends r (q, []) = [])"
    by (rule list_all2_Nil_iff)
  then show ?case unfolding t
    by (simp add: exec_from_None_iff [of r p "[]"] exec_from_None_iff [of r q "[]"])
next
  case (Cons c cs)
  then obtain d ds where t: "t = d # ds" "canonicalize c = canonicalize d"
    "map canonicalize cs = map canonicalize ds"
    by auto
  have "list_all2 same_pos (ends r (p, c # cs)) (ends r (q, d # ds))"
    by (rule ends_same) (simp add: same_pos_def Cons.prems(2) t)
  then have e: "(ends r (p, c # cs) = []) = (ends r (q, d # ds) = [])"
    by (rule list_all2_Nil_iff)
  have ih: "(exec_from r (Some c) cs = None) = (exec_from r (Some d) ds = None)"
    by (rule Cons.IH [OF t(3)]) (simp add: t(2))
  show ?case unfolding t
    using e ih
    by (simp add: exec_from_None_iff [of r p "c # cs"] exec_from_None_iff [of r q "d # ds"])
qed

lemma re_test_case_insensitive:
  "map canonicalize s = map canonicalize t \<Longrightarrow> re_test r s = re_test r t"
  unfolding re_test_def re_exec_def using exec_from_same [of s t None None r] by simp

text \<open>
  Claim C3. A command that matches one of the blocked patterns is blocked, and so is every
  command that differs from it only in the case of its letters: the gate finds a pattern
  that the command matches, the \<^verbatim>\<open>bash\<close> tool returns a failure object whose message quotes
  that pattern, and no request reaches the execution primitive. The amount of white space
  between the words of a command is handled by the patterns themselves (\<^verbatim>\<open>\s+\<close>):
  \<^verbatim>\<open>sudo   RM -rf /\<close> is refused, with the first pattern it matches named in the message.
\<close>

theorem blocked_command_refused:
  assumes "p \<in> set BLOCKED_PATTERNS" and "re_test p variant"
    and "map canonicalize command = map canonicalize variant"
  shows \<open>\<exists>q \<in> set BLOCKED_PATTERNS.
           re_test q command
           \<and> check_dangerous command = Some q
           \<and> bash exec pcwd command cwd timeout =
               (JObj [(''error'', JBool True),
                      (''message'',
                       JStr (''This command has been blocked for safety. The pattern "''
                             @ toString q @ ''" is not allowed. ''
                             @ ''Destructive commands like rm -rf, sudo rm, mkfs, dd, etc. are not permitted.'')),
                      (''suggestion'',
                       JStr ''This command may be blocked for safety reasons, or the path may be invalid'')],
                [])\<close>
proof -
  have "re_test p command"
    using assms(2) re_test_case_insensitive [OF assms(3), of p] by simp
  from find_first [of p BLOCKED_PATTERNS "\<lambda>pattern. re_test pattern command", OF assms(1) this]
  obtain q where q: "check_dangerous command = Some q" "q \<in> set BLOCKED_PATTERNS"
    "re_test q command"
    unfolding check_dangerous_def by blast
  show ?thesis
    using q bash_blocked_result [OF q(1), of exec pcwd cwd timeout]
    unfolding blocked_message_def by blast
qed

lemma sudo_rm_variant: "re_test (BLOCKED_PATTERNS ! 3) ''sudo   rm -rf /''"
  by code_simp

lemma sudo_rm_first: "check_dangerous ''sudo   RM -rf /'' = Some (BLOCKED_PATTERNS ! 0)"
  by code_simp

lemma sudo_rm_canon:
  "map canonicalize ''sudo   RM -rf /'' = map canonicalize ''sudo   rm -rf /''"
  by code_simp

lemma toString_first:
  "toString (BLOCKED_PATTERNS ! 0) =
     ''/'' @ [backslash] @ ''brm'' @ [backslash]
       @ ''s+(-[a-zA-Z]*f|-[a-zA-Z]*r|--force|--recursive)/i''"
  by (simp add: BLOCKED_PATTERNS_def toString_def lit_def)

theorem blocked_command_refused_witness:
  \<open>BLOCKED_PATTERNS ! 3 \<in> set BLOCKED_PATTERNS
   \<and> re_test (BLOCKED_PATTERNS ! 3) ''sudo   rm -rf /''
   \<and> map canonicalize ''sudo   RM -rf /'' = map canonicalize ''sudo   rm -rf /''
   \<and> bash exec_quiet ''/home/user'' ''sudo   RM -rf /'' None None =
       (JObj [(''error'', JBool True),
              (''message'',
               JStr (''This command has been blocked for safety. The pattern "/''
                     @ [backslash] @ ''brm'' @ [backslash]
                     @ ''s+(-[a-zA-Z]*f|-[a-zA-Z]*r|--force|--recursive)/i" is not allowed. ''
                     @ ''Destructive commands like rm -rf, sudo rm, mkfs, dd, etc. are not permitted.'')),
              (''suggestion'',
               JStr ''This command may be blocked for safety reasons, or the path may be invalid'')],
        [])\<close>
proof -
  have m: "BLOCKED_PATTERNS ! 3 \<in> set BLOCKED_PATTERNS"
    by (simp add: BLOCKED_PATTERNS_def)
  from blocked_command_refused [OF m sudo_rm_variant sudo_rm_canon,
      of exec_quiet "''/home/user''" None None]
  show ?thesis
    using m sudo_rm_variant sudo_rm_canon
    by (simp add: sudo_rm_first toString_first)
qed

lemma exec_from_found:
  "ends r (last (p # map Some pre), s) \<noteq> [] \<Longrightarrow> exec_from r p (pre @ s) \<noteq> None"
proof (induction pre arbitrary: p)
  case Nil
  then show ?case by (simp add: exec_from_None_iff)
next
  case (Cons c cs)
  have "ends r (last (Some c # map Some cs), s) \<noteq> []"
    using Cons.prems by simp
  from Cons.IH [OF this] have ih: "exec_from r (Some c) (cs @ s) \<noteq> None" .
  show ?case
  proof
    assume "exec_from r p ((c # cs) @ s) = None"
    then have "exec_from r (Some c) (cs @ s) = None"
      unfolding exec_from_None_iff [of r p "(c # cs) @ s"] by simp
    with ih show False by simp
  qed
qed

lemma repeat_self: "x \<in> set (repeat m n x)"
  by (cases n) simp_all

lemma repeat_step:
  "m x = [y] \<Longrightarrow> progressed x y \<Longrightarrow> repeat m (Suc n) x = repeat m n y @ [x]"
  by simp

lemma repeat_space:
  "list_all is_space_char ws \<Longrightarrow> length (ws @ rest) \<le> n \<Longrightarrow>
   (last (p # map Some ws), rest) \<in> set (repeat (ends Space) n (p, ws @ rest))"
proof (induction ws arbitrary: n p)
  case Nil
  then show ?case by (simp add: repeat_self del: ends.simps)
next
  case (Cons w ws)
  then obtain k where n: "n = Suc k" by (cases n) simp_all
  have ih: "(last (Some w # map Some ws), rest)
        \<in> set (repeat (ends Space) k (Some w, ws @ rest))"
    using Cons.IH [of k "Some w"] Cons.prems n by (simp del: ends.simps)
  have w: "ends Space (p, (w # ws) @ rest) = [(Some w, ws @ rest)]"
    using Cons.prems by (simp add: consume_def)
  have pr: "progressed (p, (w # ws) @ rest) (Some w, ws @ rest)"
    by (simp add: progressed_def)
  show ?case
    unfolding n repeat_step [of "ends Space" "(p, (w # ws) @ rest)" "(Some w, ws @ rest)" k, OF w pr]
    using ih by (simp del: ends.simps)
qed

lemma ends_Seq_member:
  "y \<in> set (ends r x) \<Longrightarrow> z \<in> set (ends s y) \<Longrightarrow> z \<in> set (ends (Seq r s) x)"
  by auto

lemma canonicalize_ascii:
  "map canonicalize ''>/devnulsha'' = ''>/DEVNULSHA''"
  by code_simp

lemma dev_null_tail:
  "ends (seqs [Esc CHR ''/'', lit ''dev'', Esc CHR ''/'',
           Group (alts [lit ''sda'', lit ''hda'', lit ''null''])]) (y, ''/dev/null'' @ post)
   = [(Some CHR ''l'', post)]"
  using canonicalize_ascii by (simp add: lit_def consume_def)

lemma dev_null_pattern:
  assumes "list_all is_space_char ws"
  shows "re_test (BLOCKED_PATTERNS ! 9) (pre @ ''>'' @ ws @ ''/dev/null'' @ post)"
proof -
  let ?tail = "seqs [Esc CHR ''/'', lit ''dev'', Esc CHR ''/'',
           Group (alts [lit ''sda'', lit ''hda'', lit ''null''])]"
  let ?rest = "''/dev/null'' @ post"
  let ?x = "(last (None # map Some pre), ''>'' @ ws @ ?rest)"
  let ?y = "(last (Some CHR ''>'' # map Some ws), ?rest)"
  have p: "BLOCKED_PATTERNS ! 9 = Seq (Chr CHR ''>'') (Seq (Star Space) ?tail)"
    by (simp add: BLOCKED_PATTERNS_def)
  have a: "(Some CHR ''>'', ws @ ?rest) \<in> set (ends (Chr CHR ''>'') ?x)"
    by (simp add: consume_def)
  have b: "?y \<in> set (ends (Star Space) (Some CHR ''>'', ws @ ?rest))"
    using repeat_space [OF assms, of ?rest "length (ws @ ?rest)" "Some CHR ''>''"] by simp
  have c: "(Some CHR ''l'', post) \<in> set (ends ?tail ?y)"
    unfolding dev_null_tail by simp
  have "(Some CHR ''l'', post) \<in> set (ends (BLOCKED_PATTERNS ! 9) ?x)"
    unfolding p by (rule ends_Seq_member [OF a ends_Seq_member [OF b c]])
  then have "ends (BLOCKED_PATTERNS ! 9) ?x \<noteq> []" by auto
  from exec_from_found [OF this] show ?thesis
    by (simp add: re_test_def re_exec_def)
qed

text \<open>
  Claim C10. Every command that contains \<^verbatim>\<open>>\<close>, any amount of white space and then
  \<^verbatim>\<open>/dev/null\<close> is blocked: the \<^verbatim>\<open>bash\<close> tool returns a failure object naming a blocked
  pattern and makes no request to the execution primitive. So the harmless
  \<^verbatim>\<open>ls > /dev/null\<close> is refused, the message naming the raw-device pattern.
\<close>

theorem dev_null_redirection_blocked:
  assumes "list_all is_space_char ws"
  shows \<open>\<exists>q \<in> set BLOCKED_PATTERNS.
           check_dangerous (pre @ ''>'' @ ws @ ''/dev/null'' @ post) = Some q
           \<and> bash exec pcwd (pre @ ''>'' @ ws @ ''/dev/null'' @ post) cwd timeout =
               (JObj [(''error'', JBool True),
                      (''message'', JStr (blocked_message q)),
                      (''suggestion'',
                       JStr ''This command may be blocked for safety reasons, or the path may be invalid'')],
                [])\<close>
proof -
  let ?command = "pre @ ''>'' @ ws @ ''/dev/null'' @ post"
  have m: "BLOCKED_PATTERNS ! 9 \<in> set BLOCKED_PATTERNS"
    by (simp add: BLOCKED_PATTERNS_def)
  from find_first [of "BLOCKED_PATTERNS ! 9" BLOCKED_PATTERNS
      "\<lambda>pattern. re_test pattern ?command", OF m dev_null_pattern [OF assms]]
  obtain q where q: "check_dangerous ?command = Some q" "q \<in> set BLOCKED_PATTERNS"
    unfolding check_dangerous_def by blast
  show ?thesis
    using q bash_blocked_result [OF q(1), of exec pcwd cwd timeout] by blast
qed

lemma ls_dev_null_first: "check_dangerous ''ls > /dev/null'' = Some (BLOCKED_PATTERNS ! 9)"
  by code_simp

lemma toString_last:
  "toString (BLOCKED_PATTERNS ! 9) =
     ''/>'' @ [backslash] @ ''s*'' @ [backslash] @ ''/dev'' @ [backslash] @ ''/(sda|hda|null)/i''"
  by (simp add: BLOCKED_PATTERNS_def toString_def lit_def)

theorem dev_null_redirection_blocked_witness:
  \<open>list_all is_space_char '' ''
   \<and> bash exec_quiet ''/home/user'' ''ls > /dev/null'' None None =
       (JObj [(''error'', JBool True),
              (''message'',
               JStr (''This command has been blocked for safety. The pattern "/>''
                     @ [backslash] @ ''s*'' @ [backslash] @ ''/dev'' @ [backslash]
                     @ ''/(sda|hda|null)/i" is not allowed. ''
                     @ ''Destructive commands like rm -rf, sudo rm, mkfs, dd, etc. are not permitted.'')),
              (''suggestion'',
               JStr ''This command may be blocked for safety reasons, or the path may be invalid'')],
        [])\<close>
proof -
  have s: "list_all is_space_char '' ''" by (simp add: is_space_char_def)
  from dev_null_redirection_blocked [OF s, of "''ls ''" "''''" exec_quiet "''/home/user''" None None]
  show ?thesis
    using s by (simp add: ls_dev_null_first blocked_message_def toString_last)
qed

section \<open>Properties of the browser tools\<close>

lemma browserNavigate_unconfigured:
  assumes "a ''getSettings'' [] = Inr settings"
    and "\<not> truthy (js_get settings ''preferredBrowser'')"
  shows \<open>browserNavigate a url w =
     (JObj [(''error'', JBool True),
            (''message'', JStr (''Browser not configured. A dialog has been shown ''
                                 @ ''to the user to select their preferred browser.'')),
            (''suggestion'', JStr ''Wait for the user to select a browser, then try again.''),
            (''needsBrowserSetup'', JBool True)],
      w\<lparr>showSelectionDialog := True,
        events := events w @ [ApiCall ''getSettings'' [], ShowSelectionDialog True]\<rparr>)\<close>
proof -
  have c: "checkBrowserConfigured a w =
      (Inr (JObj [(''configured'', JBool False), (''needsSetup'', JBool True)]),
       w\<lparr>showSelectionDialog := True,
         events := events w @ [ApiCall ''getSettings'' [], ShowSelectionDialog True]\<rparr>)"
    using assms by (simp add: checkBrowserConfigured_def call_api_def setShowSelectionDialog_def)
  show ?thesis unfolding browserNavigate_def c by simp
qed

lemma browser_tools_dispatch:
  "snd (browserClick a selector w) = w\<lparr>events := events w @ [ApiCall ''browserClick'' [JStr selector]]\<rparr>"
  "snd (browserType a selector txt w) =
     w\<lparr>events := events w @ [ApiCall ''browserType'' [JStr selector, JStr txt]]\<rparr>"
  "snd (browserPress a key w) = w\<lparr>events := events w @ [ApiCall ''browserPress'' [JStr key]]\<rparr>"
  "snd (browserScroll a dir w) =
     w\<lparr>events := events w @ [ApiCall ''browserScroll'' [JStr (direction_str dir)]]\<rparr>"
  "snd (browserGetContent a sel w) =
     w\<lparr>events := events w @ [ApiCall ''browserGetContent'' [opt_str sel]]\<rparr>"
  "snd (browserGetLinks a w) = w\<lparr>events := events w @ [ApiCall ''browserGetLinks'' []]\<rparr>"
  "snd (browserScreenshot a w) = w\<lparr>events := events w @ [ApiCall ''browserScreenshot'' []]\<rparr>"
  unfolding browserClick_def browserType_def browserPress_def browserScroll_def
    browserGetContent_def browserGetLinks_def browserScreenshot_def call_api_def read_error_def
  by (simp_all split: sum.splits)

text \<open>
  Claim C1, as the code has it. \<^verbatim>\<open>browserNavigate\<close>, invoked while the settings hold no
  preferred browser, returns at once a failure object carrying the marker
  \<^verbatim>\<open>needsBrowserSetup\<close>, raises the selection-dialog signal exactly once, and makes no call
  to the browser automation collaborator. The other browser tools (click, type, press,
  scroll, getContent, getLinks, screenshot) make no such check: whatever the settings hold,
  each makes exactly its one call to the collaborator and raises no signal.
\<close>

theorem browser_setup_gate:
  assumes "a ''getSettings'' [] = Inr settings"
    and "\<not> truthy (js_get settings ''preferredBrowser'')"
  shows \<open>browserNavigate a url w =
     (JObj [(''error'', JBool True),
            (''message'', JStr (''Browser not configured. A dialog has been shown ''
                                 @ ''to the user to select their preferred browser.'')),
            (''suggestion'', JStr ''Wait for the user to select a browser, then try again.''),
            (''needsBrowserSetup'', JBool True)],
      w\<lparr>showSelectionDialog := True,
        events := events w @ [ApiCall ''getSettings'' [], ShowSelectionDialog True]\<rparr>)
   \<and> snd (browserClick a selector w) =
       w\<lparr>events := events w @ [ApiCall ''browserClick'' [JStr selector]]\<rparr>
   \<and> snd (browserType a selector txt w) =
       w\<lparr>events := events w @ [ApiCall ''browserType'' [JStr selector, JStr txt]]\<rparr>
   \<and> snd (browserPress a key w) =
       w\<lparr>events := events w @ [ApiCall ''browserPress'' [JStr key]]\<rparr>
   \<and> snd (browserScroll a dir w) =
       w\<lparr>events := events w @ [ApiCall ''browserScroll'' [JStr (direction_str dir)]]\<rparr>
   \<and> snd (browserGetContent a sel w) =
       w\<lparr>events := events w @ [ApiCall ''browserGetContent'' [opt_str sel]]\<rparr>
   \<and> snd (browserGetLinks a w) =
       w\<lparr>events := events w @ [ApiCall ''browserGetLinks'' []]\<rparr>
   \<and> snd (browserScreenshot a w) =
       w\<lparr>events := events w @ [ApiCall ''browserScreenshot'' []]\<rparr>\<close>
  unfolding browserNavigate_unconfigured [of a settings url w, OF assms] browser_tools_dispatch by simp

theorem browser_setup_gate_witness:
  \<open>api_unconfigured ''getSettings'' [] =
       Inr (JObj [(''id'', JStr ''default''), (''preferredBrowser'', JNull)])
   \<and> \<not> truthy (js_get (JObj [(''id'', JStr ''default''), (''preferredBrowser'', JNull)])
                  ''preferredBrowser'')
   \<and> browserNavigate api_unconfigured ''https://github.com'' world_init =
     (JObj [(''error'', JBool True),
            (''message'', JStr (''Browser not configured. A dialog has been shown ''
                                 @ ''to the user to select their preferred browser.'')),
            (''suggestion'', JStr ''Wait for the user to select a browser, then try again.''),
            (''needsBrowserSetup'', JBool True)],
      \<lparr>showSelectionDialog = True,
        events = [ApiCall ''getSettings'' [], ShowSelectionDialog True]\<rparr>)\<close>
proof -
  have s: "api_unconfigured ''getSettings'' [] =
       Inr (JObj [(''id'', JStr ''default''), (''preferredBrowser'', JNull)])"
    by (simp add: api_unconfigured_def)
  have n: "\<not> truthy (js_get (JObj [(''id'', JStr ''default''), (''preferredBrowser'', JNull)])
                  ''preferredBrowser'')"
    by simp
  from browser_setup_gate [of api_unconfigured
      "JObj [(''id'', JStr ''default''), (''preferredBrowser'', JNull)]"
      "''https://github.com''" world_init, OF s n]
  show ?thesis using s n by (simp add: world_init_def)
qed

text \<open>
  The claim as stated fails for \<^verbatim>\<open>browserClick\<close>: with no preferred browser configured
  it calls the collaborator, returns the collaborator's failure without the marker, and
  raises no signal.
\<close>

theorem browserClick_unconfigured_counterexample:
  \<open>browserClick api_unconfigured ''#login-button'' world_init =
     (JObj [(''error'', JBool True),
            (''message'', JStr ''No page open''),
            (''suggestion'',
             JStr ''The element may not exist or may not be clickable. Try a different selector.'')],
      \<lparr>showSelectionDialog = False,
        events = [ApiCall ''browserClick'' [JStr ''#login-button'']]\<rparr>)
   \<and> \<not> (js_get (fst (browserClick api_unconfigured ''#login-button'' world_init))
              ''needsBrowserSetup'' = JBool True
          \<and> ShowSelectionDialog True
              \<in> set (events (snd (browserClick api_unconfigured ''#login-button'' world_init)))
          \<and> ApiCall ''browserClick'' [JStr ''#login-button'']
              \<notin> set (events (snd (browserClick api_unconfigured ''#login-button'' world_init))))\<close>
proof -
  have e: \<open>browserClick api_unconfigured ''#login-button'' world_init =
     (JObj [(''error'', JBool True),
            (''message'', JStr ''No page open''),
            (''suggestion'',
             JStr ''The element may not exist or may not be clickable. Try a different selector.'')],
      \<lparr>showSelectionDialog = False,
        events = [ApiCall ''browserClick'' [JStr ''#login-button'']]\<rparr>)\<close>
    by (simp add: browserClick_def call_api_def read_error_def is_nullish_def
        api_unconfigured_def world_init_def js_or_def)
  show ?thesis unfolding e by simp
qed

section \<open>Properties of the skill registry search\<close>

text \<open>
  Claim C2 asks that a network failure of the registry search give an empty list on the
  path of the marketplace panel and a failure object on the path of the agent's tool. The
  handler catches the network fault and returns the empty list to both callers, so with
  the network down the panel gets the empty list and the \<^verbatim>\<open>searchSkills\<close> tool returns a
  success object with no skills, for every query; the \<^verbatim>\<open>catch\<close> block of the tool, whose
  suggestion speaks of a network error, is not reached.
\<close>

theorem searchSkills_network_failure:
  \<open>searchSkillRegistry fetch_offline encodeURIComponent query = JArr []
   \<and> searchSkills fetch_offline encodeURIComponent query =
       JObj [(''success'', JBool True),
             (''skills'', JArr []),
             (''message'',
              JStr (''No skills found for "'' @ query
                      @ ''". You may need to use the browser instead.''))]
   \<and> js_get (searchSkills fetch_offline encodeURIComponent query) ''error'' = JUndefined\<close>
  by (simp add: searchSkillRegistry_def searchSkills_def skillRegistrySearch_def
      skillregistry_search_def fetch_offline_def Let_def is_nullish_def)

section \<open>Properties of the content search\<close>

lemma escape_class_syntax: "set escape_class = set syntax_characters"
  by (auto simp: escape_class_def syntax_characters_def)

lemma backslash_syntax: "backslash \<in> set syntax_characters"
  by (simp add: syntax_characters_def)

lemma parse_literal_escape:
  "parse_literal (escape_pattern pattern) = Some (literal_atoms pattern)"
proof (induction pattern)
  case Nil
  then show ?case by (simp add: escape_pattern_def literal_atoms_def)
next
  case (Cons c cs)
  have ih: "parse_literal (escape_pattern cs) = Some (literal_atoms cs)"
    by (rule Cons.IH)
  show ?case
  proof (cases "c \<in> set escape_class")
    case True
    then have e: "escape_pattern (c # cs) = backslash # c # escape_pattern cs"
      by (simp add: escape_pattern_def)
    from True have "c \<in> set syntax_characters" by (simp add: escape_class_syntax)
    then show ?thesis unfolding e using True ih by (simp add: literal_atoms_def)
  next
    case False
    then have e: "escape_pattern (c # cs) = c # escape_pattern cs"
      by (simp add: escape_pattern_def)
    from False have n: "c \<notin> set syntax_characters" by (simp add: escape_class_syntax)
    with backslash_syntax have "c \<noteq> backslash" by auto
    then show ?thesis unfolding e using False n ih by (simp add: literal_atoms_def)
  qed
qed

lemma concat_ends_Empty: "concat (map (ends Empty) xs) = xs"
  by (induction xs) simp_all

lemma ends_seqs_Cons:
  "ends (seqs (r # rs)) x = concat (map (ends (seqs rs)) (ends r x))"
  by (cases rs) (simp_all add: concat_ends_Empty)

lemma ends_literal_atoms:
  "ends (seqs (literal_atoms pattern)) (q, s) =
     (if length pattern \<le> length s
         \<and> map canonicalize (take (length pattern) s) = map canonicalize pattern
      then [(last (q # map Some (take (length pattern) s)), drop (length pattern) s)]
      else [])"
proof (induction pattern arbitrary: q s)
  case Nil
  then show ?case by (simp add: literal_atoms_def)
next
  case (Cons c cs)
  have la: "literal_atoms (c # cs) = (if c \<in> set escape_class then Esc c else Chr c) # literal_atoms cs"
    by (simp add: literal_atoms_def)
  have atom: "ends (if c \<in> set escape_class then Esc c else Chr c) (q, s) =
      consume (\<lambda>d. canonicalize d = canonicalize c) (q, s)"
    by simp
  show ?case
  proof (cases s)
    case Nil
    then show ?thesis unfolding la ends_seqs_Cons atom by (simp add: consume_def)
  next
    case (Cons d ds)
    show ?thesis
      unfolding la ends_seqs_Cons atom Cons
      by (simp add: consume_def Cons.IH)
  qed
qed

lemma exec_from_literal:
  "exec_from (seqs (literal_atoms pattern)) q s = literal_match pattern s"
proof (induction s arbitrary: q)
  case Nil
  show ?case
    by (subst exec_from.simps, subst literal_match.simps) (simp add: ends_literal_atoms)
next
  case (Cons c cs)
  show ?case
    by (subst exec_from.simps, subst literal_match.simps)
       (simp add: ends_literal_atoms Cons.IH)
qed

lemma str_match_literal:
  "str_match foreign_match (Known (seqs (literal_atoms pattern))) = literal_match pattern"
  by (rule ext) (simp add: re_exec_def exec_from_literal)

lemma RegExp_new_escaped:
  "RegExp_new engine (escape_pattern pattern) = Some (Known (seqs (literal_atoms pattern)))"
  by (simp add: RegExp_new_def parse_literal_escape)

lemma fs_grep_returns:
  assumes "fs_stat env (fs_resolve env searchPath) = Some isDirectory"
  shows "fs_grep engine foreign_match env pattern searchPath maxResultsOption =
     Inr (search_files
            (case RegExp_new engine pattern of
               Some regex \<Rightarrow> str_match foreign_match regex
             | None \<Rightarrow> literal_match pattern)
            (case maxResultsOption of None \<Rightarrow> 100 | Some n \<Rightarrow> if n = 0 then 100 else n)
            (fs_readFile env)
            (if isDirectory then fs_files env (fs_resolve env searchPath)
             else [fs_resolve env searchPath])
            [])"
proof (cases "RegExp_new engine pattern")
  case None
  show ?thesis
    unfolding fs_grep_def Let_def assms None RegExp_new_escaped
    by (simp add: str_match_literal)
next
  case (Some regex)
  show ?thesis
    unfolding fs_grep_def Let_def assms Some by simp
qed

text \<open>
  Claim C6. For every pattern, valid or not, a search on an existing path completes: the
  handler returns its list of results and the tool returns no failure object. Where the
  pattern does not compile, its escaped form does (the class of the \<^verbatim>\<open>replace\<close> call holds
  every syntax character, and only those), and the results are those of the literal,
  case-insensitive substring match for the pattern as it was supplied.
\<close>

theorem grep_invalid_pattern_literal_fallback:
  assumes "fs_stat env (fs_resolve env searchPath) = Some isDirectory"
  shows "\<exists>results.
           fs_grep engine foreign_match env pattern searchPath maxResultsOption = Inr results
           \<and> (RegExp_new engine pattern = None \<longrightarrow>
                RegExp_new engine (escape_pattern pattern) \<noteq> None
                \<and> results =
                    search_files (literal_match pattern)
                      (case maxResultsOption of None \<Rightarrow> 100 | Some n \<Rightarrow> if n = 0 then 100 else n)
                      (fs_readFile env)
                      (if isDirectory then fs_files env (fs_resolve env searchPath)
                       else [fs_resolve env searchPath])
                      [])
           \<and> js_get (grep engine foreign_match env pattern searchPath toolMaxResults) ''error''
               = JUndefined"
proof -
  have t: "js_get (grep engine foreign_match env pattern searchPath toolMaxResults) ''error''
      = JUndefined"
    unfolding grep_def fs_grep_returns [OF assms] by simp
  show ?thesis
    unfolding fs_grep_returns [OF assms] using t
    by (simp add: RegExp_new_escaped)
qed

lemma one_file_search:
  "search_files (literal_match ''f('') 100 (fs_readFile one_file) [''/work/notes.txt''] [] =
     [\<lparr>gm_file = ''/work/notes.txt'', gm_line = 1, gm_content = ''call f(x)'', gm_match = ''f(''\<rparr>,
      \<lparr>gm_file = ''/work/notes.txt'', gm_line = 3, gm_content = ''F(Y)'', gm_match = ''F(''\<rparr>]"
  by code_simp

lemma one_file_invalid: "RegExp_new engine_strict ''f('' = None"
  by (simp add: RegExp_new_def engine_strict_def syntax_characters_def backslash_def)

theorem grep_invalid_pattern_literal_fallback_witness:
  "fs_stat one_file (fs_resolve one_file ''/work/notes.txt'') = Some False
   \<and> RegExp_new engine_strict ''f('' = None
   \<and> fs_grep engine_strict (\<lambda>x line. None) one_file ''f('' ''/work/notes.txt'' None =
       Inr [\<lparr>gm_file = ''/work/notes.txt'', gm_line = 1, gm_content = ''call f(x)'',
              gm_match = ''f(''\<rparr>,
            \<lparr>gm_file = ''/work/notes.txt'', gm_line = 3, gm_content = ''F(Y)'',
              gm_match = ''F(''\<rparr>]"
proof -
  have s: "fs_stat one_file (fs_resolve one_file ''/work/notes.txt'') = Some False"
    by (simp add: one_file_def)
  have r: "fs_resolve one_file ''/work/notes.txt'' = ''/work/notes.txt''"
    by (simp add: one_file_def)
  from grep_invalid_pattern_literal_fallback [OF s, of engine_strict "\<lambda>x line. None" "''f(''" None None]
  show ?thesis
    using s one_file_invalid
    by (auto simp: r one_file_search simp del: search_files.simps)
qed

end
